theory Spec2Isabelle
  imports Complex_Main "HOL-Library.Sublist" "HOL-Library.Word"
begin

section \<open>Numbers\<close>

text \<open>
  A JavaScript \<^verbatim>\<open>number\<close> is an IEEE-754 binary64 value. A finite one is modelled as the
  real number it stands for, and the three special values are constructors of their
  own; the sign of zero is not represented.
\<close>

datatype number = Num real | PosInfinity | NegInfinity | NaN

subsection \<open>The score as a formula\<close>



subsection \<open>Binary64 arithmetic\<close>

text \<open>
  The result of an arithmetic operation is the exact result rounded to the nearest
  double, a tie going to the double with the even significand. The doubles around a
  positive real \<open>x\<close> with \<open>2^e \<le> x < 2^(e+1)\<close> are the multiples of \<open>2^(e-52)\<close>; below the
  smallest normal number \<open>2^-1022\<close> they are the multiples of \<open>2^-1074\<close>. A result
  beyond the largest double overflows to an infinity.
\<close>

definition pow2 :: "int \<Rightarrow> real" where
  "pow2 k = 2 powr real_of_int k"

definition round_half_even :: "real \<Rightarrow> int" where
  "round_half_even y =
     (let n = \<lfloor>y\<rfloor>; f = y - of_int n in
      if f < 1 / 2 then n
      else if 1 / 2 < f then n + 1
      else if even n then n else n + 1)"

definition binade :: "real \<Rightarrow> int" where
  "binade x = max \<lfloor>log 2 x\<rfloor> (- 1022)"

definition quantum :: "real \<Rightarrow> real" where
  "quantum x = pow2 (binade x - 52)"

definition round_pos :: "real \<Rightarrow> real" where
  "round_pos x = of_int (round_half_even (x / quantum x)) * quantum x"

definition round_real :: "real \<Rightarrow> real" where
  "round_real x = (if x = 0 then 0 else if 0 < x then round_pos x else - round_pos (- x))"

definition max_double :: real where
  "max_double = (2 ^ 53 - 1) * 2 ^ 971"

definition round64 :: "real \<Rightarrow> number" where
  "round64 x =
     (let r = round_real x in
      if max_double < r then PosInfinity
      else if r < - max_double then NegInfinity
      else Num r)"

text \<open>The operators \<^verbatim>\<open>/\<close> and \<^verbatim>\<open>+\<close> on finite operands, and \<^verbatim>\<open>Math.ceil\<close>.\<close>

definition div64 :: "real \<Rightarrow> real \<Rightarrow> number" where
  "div64 x y =
     (if y \<noteq> 0 then round64 (x / y)
      else if 0 < x then PosInfinity
      else if x < 0 then NegInfinity
      else NaN)"

definition add64 :: "real \<Rightarrow> real \<Rightarrow> number" where
  "add64 x y = round64 (x + y)"


subsection \<open>Chunk count\<close>


subsection \<open>Score normalisation in binary64\<close>

text \<open>
  \<^verbatim>\<open>1 / (1 + distance)\<close> for a finite distance, with the sum and the quotient
  rounded. A sum that overflows is an infinity, and \<open>1\<close> divided by an infinity is
  zero.
\<close>

definition normalizeScore_binary64 :: "real \<Rightarrow> number" where
  "normalizeScore_binary64 distance =
     (case add64 1 distance of
        Num s \<Rightarrow> div64 1 s
      | PosInfinity \<Rightarrow> Num 0
      | NegInfinity \<Rightarrow> Num 0
      | NaN \<Rightarrow> NaN)"

section \<open>Strings\<close>

text \<open>
  A JavaScript string is a sequence of 16-bit code units. The functions below are the
  library functions the source calls, with the behaviour the language standard gives
  them. \<open>utf16\<close> writes a literal of the source, whose characters are all ASCII, as
  its code units.
\<close>

type_synonym js_string = "16 word list"

definition utf16 :: "string \<Rightarrow> js_string" where
  "utf16 s = map (\<lambda>c. of_nat (of_char c)) s"

abbreviation LF :: "16 word" where "LF \<equiv> 0x0A"
abbreviation CR :: "16 word" where "CR \<equiv> 0x0D"

text \<open>
  Whitespace as \<^verbatim>\<open>trim()\<close> and the regular expression class \<^verbatim>\<open>\s\<close> see it: the
  white-space code units (TAB, VT, FF, SPACE, NBSP, the byte order mark and the space
  separators of Unicode) and the four line terminators.
\<close>

definition is_space :: "16 word \<Rightarrow> bool" where
  "is_space c \<longleftrightarrow>
     c = 0x09 \<or> c = LF \<or> c = 0x0B \<or> c = 0x0C \<or> c = CR \<or> c = 0x20 \<or> c = 0xA0 \<or>
     c = 0x1680 \<or> (0x2000 \<le> c \<and> c \<le> 0x200A) \<or> c = 0x2028 \<or> c = 0x2029 \<or>
     c = 0x202F \<or> c = 0x205F \<or> c = 0x3000 \<or> c = 0xFEFF"

text \<open>
  The code units that the regular expression atom \<^verbatim>\<open>.\<close> does not match: line feed,
  carriage return, line separator and paragraph separator.
\<close>

definition is_line_terminator :: "16 word \<Rightarrow> bool" where
  "is_line_terminator c \<longleftrightarrow> c = LF \<or> c = CR \<or> c = 0x2028 \<or> c = 0x2029"

definition trim :: "js_string \<Rightarrow> js_string" where
  "trim s = rev (dropWhile is_space (rev (dropWhile is_space s)))"

text \<open>A string that \<^verbatim>\<open>trim()\<close> leaves alone: no whitespace at either end.\<close>

definition trimmed :: "js_string \<Rightarrow> bool" where
  "trimmed s \<longleftrightarrow> s = [] \<or> (\<not> is_space (hd s) \<and> \<not> is_space (last s))"

text \<open>Position of the first occurrence of \<open>pat\<close> in \<open>s\<close>, if there is one.\<close>

fun first_index :: "js_string \<Rightarrow> js_string \<Rightarrow> nat option" where
  "first_index pat [] = (if pat = [] then Some 0 else None)"
| "first_index pat (c # cs) =
     (if prefix pat (c # cs) then Some 0 else map_option Suc (first_index pat cs))"

text \<open>\<^verbatim>\<open>s.indexOf(pat)\<close>: the position of the first occurrence, or \<open>-1\<close>.\<close>

definition indexOf :: "js_string \<Rightarrow> js_string \<Rightarrow> int" where
  "indexOf s pat = (case first_index pat s of None \<Rightarrow> - 1 | Some i \<Rightarrow> int i)"

text \<open>
  \<^verbatim>\<open>s.split(sep)\<close> with a string separator: the pieces between the successive
  non-overlapping occurrences of \<open>sep\<close>, found from the left. A string without an
  occurrence gives the one-element list \<open>[s]\<close>; the empty separator cuts \<open>s\<close> into its
  code units.
\<close>

function split :: "js_string \<Rightarrow> js_string \<Rightarrow> js_string list" where
  "split sep s =
     (if sep = [] then map (\<lambda>c. [c]) s
      else case first_index sep s of
             None \<Rightarrow> [s]
           | Some i \<Rightarrow> take i s # split sep (drop (i + length sep) s))"
  by pat_completeness auto

lemma first_index_bound:
  "first_index pat s = Some i \<Longrightarrow> i + length pat \<le> length s"
proof (induction s arbitrary: i)
  case Nil
  then show ?case by (simp split: if_splits)
next
  case (Cons c cs)
  show ?case
  proof (cases "prefix pat (c # cs)")
    case True
    then show ?thesis using Cons.prems prefix_length_le [of pat "c # cs"] by simp
  next
    case False
    then obtain j where "first_index pat cs = Some j" "i = Suc j"
      using Cons.prems by auto
    then show ?thesis using Cons.IH by simp
  qed
qed

termination split
proof (relation "measure (\<lambda>(sep, s). length s)")
  show "wf (measure (\<lambda>(sep, s). length s))" by simp
next
  fix sep s :: js_string and i :: nat
  assume "sep \<noteq> []" and "first_index sep s = Some i"
  then have "i + length sep \<le> length s" and "0 < length sep"
    by (simp_all add: first_index_bound)
  then have "length s - (i + length sep) < length s"
    by arith
  then show "((sep, drop (i + length sep) s), (sep, s)) \<in> measure (\<lambda>(sep, s). length s)"
    by simp
qed

declare split.simps [simp del]

text \<open>\<^verbatim>\<open>xs.join(sep)\<close>.\<close>

fun join :: "js_string \<Rightarrow> js_string list \<Rightarrow> js_string" where
  "join sep [] = []"
| "join sep [x] = x"
| "join sep (x # y # ys) = x @ sep @ join sep (y # ys)"

text \<open>\<^verbatim>\<open>xs.filter(Boolean)\<close> on strings keeps the non-empty ones.\<close>

definition filter_Boolean :: "js_string list \<Rightarrow> js_string list" where
  "filter_Boolean xs = filter (\<lambda>x. x \<noteq> []) xs"

text \<open>Reading an array element: \<^verbatim>\<open>undefined\<close> (here \<open>None\<close>) beyond the end.\<close>

fun element :: "'a list \<Rightarrow> nat \<Rightarrow> 'a option" where
  "element [] n = None"
| "element (x # xs) 0 = Some x"
| "element (x # xs) (Suc n) = element xs n"

section \<open>Note storage: the markdown format\<close>

text \<open>
  The two errors the modelled functions throw: a plain \<^verbatim>\<open>Error\<close> with its message, and
  the \<^verbatim>\<open>ValidationError\<close> of the configuration check with its message and the issues
  of the failed parse.
\<close>

datatype error = Error string | ValidationError string "string list"

text \<open>
  The type \<^verbatim>\<open>WrittenMemory\<close>. Its field \<^verbatim>\<open>id\<close> is \<open>memory_id\<close> here, and the parameters
  \<^verbatim>\<open>content\<close> and \<^verbatim>\<open>id\<close> of \<^verbatim>\<open>parseMemoryMarkdown\<close> are \<open>text\<close> and \<open>ident\<close>.
\<close>

record WrittenMemory =
  memory_id :: js_string
  title :: js_string
  content :: js_string
  tags :: "js_string list"
  createdAt :: js_string
  updatedAt :: js_string
  deleted :: bool

text \<open>
  \<^verbatim>\<open>export function formatMemoryMarkdown(memory: WrittenMemory): string {
    const lines = [
      `# ${memory.title}`, '', memory.content, '', '---',
      `tags: ${memory.tags.join(', ')}`,
      `created: ${memory.createdAt}`,
      `updated: ${memory.updatedAt}`,
      `deleted: ${memory.deleted}`,
    ];
    return lines.join('\n');
  }\<close>
\<close>

definition show_bool :: "bool \<Rightarrow> js_string" where
  "show_bool b = (if b then utf16 ''true'' else utf16 ''false'')"

definition formatMemoryMarkdown :: "WrittenMemory \<Rightarrow> js_string" where
  "formatMemoryMarkdown memory =
     join [LF]
       [utf16 ''# '' @ title memory,
        [],
        content memory,
        [],
        utf16 ''---'',
        utf16 ''tags: '' @ join (utf16 '', '') (tags memory),
        utf16 ''created: '' @ createdAt memory,
        utf16 ''updated: '' @ updatedAt memory,
        utf16 ''deleted: '' @ show_bool (deleted memory)]"

text \<open>
  \<^verbatim>\<open>function parseFrontmatter(frontmatter: string): Record<string, string> {
    const result: Record<string, string> = {};
    for (const line of frontmatter.split('\n')) {
      const colonIndex = line.indexOf(':');
      if (colonIndex > 0) {
        const key = line.slice(0, colonIndex).trim();
        const value = line.slice(colonIndex + 1).trim();
        result[key] = value;
      }
    }
    return result;
  }\<close>
  The loop is a left fold over the lines; a later line overwrites an earlier one with
  the same key.
\<close>

definition frontmatter_line :: "(js_string \<rightharpoonup> js_string) \<Rightarrow> js_string \<Rightarrow> (js_string \<rightharpoonup> js_string)" where
  "frontmatter_line result line =
     (let colonIndex = indexOf line (utf16 '':'') in
      if 0 < colonIndex then
        let key = trim (take (nat colonIndex) line);
            val = trim (drop (nat (colonIndex + 1)) line)
        in result(key \<mapsto> val)
      else result)"

definition parseFrontmatter :: "js_string \<Rightarrow> (js_string \<rightharpoonup> js_string)" where
  "parseFrontmatter frontmatter = foldl frontmatter_line Map.empty (split [LF] frontmatter)"

text \<open>
  The regular expression \<^verbatim>\<open>/^# (.+)\n/\<close> on \<open>body\<close>. There is no \<^verbatim>\<open>m\<close> flag, so
  \<^verbatim>\<open>^\<close> is the start of the string. The greedy \<^verbatim>\<open>.+\<close> first takes the longest run of
  code units that are not line terminators; the next character has to be a line feed.
  Giving characters back cannot help, since every character given back is not a line
  feed. So there is a match exactly when the run is not empty and a line feed follows
  it. The result is the captured group and the text after the match.
\<close>

definition match_heading :: "js_string \<Rightarrow> (js_string \<times> js_string) option" where
  "match_heading body =
     (if prefix (utf16 ''# '') body then
        let rest = drop 2 body;
            run = takeWhile (\<lambda>c. \<not> is_line_terminator c) rest;
            after = dropWhile (\<lambda>c. \<not> is_line_terminator c) rest
        in (case after of
              c # cs \<Rightarrow> if run \<noteq> [] \<and> c = LF then Some (run, cs) else None
            | [] \<Rightarrow> None)
      else None)"

text \<open>
  \<^verbatim>\<open>body.replace(/^# .+\n\n?/, '')\<close>: the same heading, then one more line feed when
  there is one; the match is cut out, and a body without a match is unchanged.
\<close>

definition strip_heading :: "js_string \<Rightarrow> js_string" where
  "strip_heading body =
     (case match_heading body of
        None \<Rightarrow> body
      | Some (run, after) \<Rightarrow> (case after of c # cs \<Rightarrow> if c = LF then cs else after | [] \<Rightarrow> after))"

text \<open>
  \<^verbatim>\<open>export function parseMemoryMarkdown(content: string, id: string): WrittenMemory {
    const [body, frontmatter] = content.split('\n---\n');
    if (!body || !frontmatter) {
      throw new Error('Invalid memory format: missing frontmatter');
    }
    const titleMatch = body.match(/^# (.+)\n/);
    const title = titleMatch?.[1] ?? 'Untitled';
    const memoryContent = body.replace(/^# .+\n\n?/, '').trim();
    const meta = parseFrontmatter(frontmatter);
    return {
      id, title, content: memoryContent,
      tags: meta.tags?.split(', ').filter(Boolean) ?? [],
      createdAt: meta.created ?? new Date().toISOString(),
      updatedAt: meta.updated ?? new Date().toISOString(),
      deleted: meta.deleted === 'true',
    };
  }\<close>
  The two readings of the clock are parameters: \<open>now_created\<close> and \<open>now_updated\<close> are
  what \<^verbatim>\<open>new Date().toISOString()\<close> gives at the \<^verbatim>\<open>createdAt\<close> and at the
  \<^verbatim>\<open>updatedAt\<close> position. The array pattern binds \<open>body\<close> and \<open>frontmatter\<close> to the
  first two pieces, \<^verbatim>\<open>undefined\<close> where a piece is missing; \<^verbatim>\<open>!x\<close> holds of
  \<^verbatim>\<open>undefined\<close> and of the empty string.
\<close>

text \<open>The separator \<^verbatim>\<open>'\n---\n'\<close>: a line feed, three dashes, a line feed.\<close>

abbreviation footer_separator :: js_string where
  "footer_separator \<equiv> [LF, 0x2D, 0x2D, 0x2D, LF]"

definition parseMemoryMarkdown ::
  "js_string \<Rightarrow> js_string \<Rightarrow> js_string \<Rightarrow> js_string \<Rightarrow> error + WrittenMemory" where
  "parseMemoryMarkdown now_created now_updated text ident =
     (let parts = split footer_separator text in
      case (element parts 0, element parts 1) of
        (Some body, Some frontmatter) \<Rightarrow>
          if body = [] \<or> frontmatter = [] then
            Inl (Error ''Invalid memory format: missing frontmatter'')
          else
            let title = (case match_heading body of
                           Some (run, after) \<Rightarrow> run
                         | None \<Rightarrow> utf16 ''Untitled'');
                memoryContent = trim (strip_heading body);
                meta = parseFrontmatter frontmatter
            in Inr \<lparr> memory_id = ident,
                     title = title,
                     content = memoryContent,
                     tags = (case meta (utf16 ''tags'') of
                               Some v \<Rightarrow> filter_Boolean (split (utf16 '', '') v)
                             | None \<Rightarrow> []),
                     createdAt = (case meta (utf16 ''created'') of Some v \<Rightarrow> v | None \<Rightarrow> now_created),
                     updatedAt = (case meta (utf16 ''updated'') of Some v \<Rightarrow> v | None \<Rightarrow> now_updated),
                     deleted = (meta (utf16 ''deleted'') = Some (utf16 ''true'')) \<rparr>
      | _ \<Rightarrow> Inl (Error ''Invalid memory format: missing frontmatter''))"

subsection \<open>The footer as \<^verbatim>\<open>key: value\<close> lines\<close>

text \<open>
  The specification describes the footer as \<^verbatim>\<open>key: value\<close> lines. This is that reading,
  written without the parser's functions, to compare the parser with: the lines are the
  pieces between line feeds; a line with a colon after its first position is an entry,
  whose key is the text before the first colon and whose value is the text after it,
  both without the whitespace around them; the value of a key is the value of the last
  entry with that key.
\<close>

fun footer_lines :: "js_string \<Rightarrow> js_string list" where
  "footer_lines [] = [[]]"
| "footer_lines (c # cs) =
     (if c = LF then [] # footer_lines cs
      else (case footer_lines cs of l # ls \<Rightarrow> (c # l) # ls | [] \<Rightarrow> [[c]]))"

definition entry_of :: "js_string \<Rightarrow> (js_string \<times> js_string) option" where
  "entry_of line =
     (let name = takeWhile (\<lambda>c. c \<noteq> 0x3A) line;
          rest = dropWhile (\<lambda>c. c \<noteq> 0x3A) line
      in if name \<noteq> [] \<and> rest \<noteq> [] then Some (trim name, trim (tl rest)) else None)"

definition footer_entries :: "js_string \<Rightarrow> (js_string \<times> js_string) list" where
  "footer_entries footer = List.map_filter entry_of (footer_lines footer)"

definition footer_value :: "js_string \<Rightarrow> js_string \<Rightarrow> js_string option" where
  "footer_value footer key =
     (let es = filter (\<lambda>e. fst e = key) (footer_entries footer)
      in if es = [] then None else Some (snd (last es)))"

section \<open>Summarizer: parsing the model response\<close>

record SummarizationResult =
  summary :: js_string
  keyFacts :: "js_string list"

text \<open>
  The \<^verbatim>\<open>i\<close> flag compares characters after mapping them to upper case. The letters
  of the two patterns are ASCII, and a code unit from 128 on is never mapped to an ASCII
  one, so only the letters \<^verbatim>\<open>a\<close> to \<^verbatim>\<open>z\<close> matter.
\<close>

definition to_upper :: "16 word \<Rightarrow> 16 word" where
  "to_upper c = (if 0x61 \<le> c \<and> c \<le> 0x7A then c - 0x20 else c)"

definition ci_prefix :: "js_string \<Rightarrow> js_string \<Rightarrow> bool" where
  "ci_prefix pat s \<longleftrightarrow> prefix (map to_upper pat) (map to_upper s)"

text \<open>
  \<^verbatim>\<open>\s*\n\<close> at the start of \<open>s\<close>. The greedy \<^verbatim>\<open>\s*\<close> first takes the whole run of
  whitespace; what follows the run is not a line feed, so it gives characters back until
  the character given back last is a line feed. That is the last line feed of the run,
  and whatever follows in both expressions can always match, so this choice stands. The
  result is the input after that line feed; there is no match when the run has no line
  feed.
\<close>

definition ws_newline :: "js_string \<Rightarrow> js_string option" where
  "ws_newline s =
     (let run = takeWhile is_space s in
      if LF \<in> set run
      then Some (rev (takeWhile (\<lambda>c. c \<noteq> LF) (rev run)) @ dropWhile is_space s)
      else None)"

text \<open>
  The lookahead \<^verbatim>\<open>(?=\n\s*KEY FACTS:|$)\<close>: a line feed, whitespace and the marker, or
  the end of the input (there is no \<^verbatim>\<open>m\<close> flag).
\<close>

definition section_end :: "js_string \<Rightarrow> bool" where
  "section_end s =
     (case s of
        [] \<Rightarrow> True
      | c # r \<Rightarrow> c = LF \<and> ci_prefix (utf16 ''KEY FACTS:'') (dropWhile is_space r))"

text \<open>
  The lazy group \<^verbatim>\<open>([\s\S]*?)\<close> before a condition: the shortest prefix after which
  the condition holds. Both conditions used here hold at the end of the input.
\<close>

fun lazy_until :: "(js_string \<Rightarrow> bool) \<Rightarrow> js_string \<Rightarrow> js_string" where
  "lazy_until P [] = []"
| "lazy_until P (c # cs) = (if P (c # cs) then [] else c # lazy_until P cs)"

text \<open>
  An attempt to match \<^verbatim>\<open>/SUMMARY:\s*\n([\s\S]*?)(?=\n\s*KEY FACTS:|$)/i\<close> and
  \<^verbatim>\<open>/KEY FACTS:\s*\n([\s\S]*?)$/i\<close> at the start of \<open>s\<close>; the result is group 1.
\<close>

definition summary_at :: "js_string \<Rightarrow> js_string option" where
  "summary_at s =
     (if ci_prefix (utf16 ''SUMMARY:'') s
      then map_option (lazy_until section_end) (ws_newline (drop 8 s))
      else None)"

definition facts_at :: "js_string \<Rightarrow> js_string option" where
  "facts_at s =
     (if ci_prefix (utf16 ''KEY FACTS:'') s
      then map_option (lazy_until (\<lambda>r. r = [])) (ws_newline (drop 10 s))
      else None)"

text \<open>\<^verbatim>\<open>response.match(re)\<close> tries the start positions from the left.\<close>

fun first_match :: "(js_string \<Rightarrow> 'a option) \<Rightarrow> js_string \<Rightarrow> 'a option" where
  "first_match m [] = m []"
| "first_match m (c # cs) =
     (case m (c # cs) of Some g \<Rightarrow> Some g | None \<Rightarrow> first_match m cs)"

text \<open>\<^verbatim>\<open>line.replace(/^-\s*/, '')\<close>: a leading dash and the whitespace after it.\<close>

definition strip_bullet :: "js_string \<Rightarrow> js_string" where
  "strip_bullet line =
     (case line of
        [] \<Rightarrow> []
      | c # r \<Rightarrow> if c = 0x2D then dropWhile is_space r else line)"

text \<open>
  \<^verbatim>\<open>export function parseSummarizationResponse(response: string): SummarizationResult {
    const summaryMatch = response.match(/SUMMARY:\s*\n([\s\S]*?)(?=\n\s*KEY FACTS:|$)/i);
    const factsMatch = response.match(/KEY FACTS:\s*\n([\s\S]*?)$/i);
    const summary = summaryMatch?.[1]?.trim() ?? response.trim();
    const factsText = factsMatch?.[1] ?? '';
    const keyFacts = factsText
      .split('\n')
      .map((line) => line.replace(/^-\s*/, '').trim())
      .filter(Boolean);
    return { summary, keyFacts };
  }\<close>
\<close>

definition parseSummarizationResponse :: "js_string \<Rightarrow> SummarizationResult" where
  "parseSummarizationResponse response =
     (let summaryMatch = first_match summary_at response;
          factsMatch = first_match facts_at response;
          summary = (case summaryMatch of Some g \<Rightarrow> trim g | None \<Rightarrow> trim response);
          factsText = (case factsMatch of Some g \<Rightarrow> g | None \<Rightarrow> []);
          keyFacts = filter_Boolean (map (\<lambda>line. trim (strip_bullet line)) (split [LF] factsText))
      in \<lparr> summary = summary, keyFacts = keyFacts \<rparr>)"

section \<open>Configuration\<close>

text \<open>
  The configuration reaches \<^verbatim>\<open>validateConfig\<close> as a value of type \<^verbatim>\<open>unknown\<close>. Values
  are modelled as a datatype; an object is its list of properties, read with \<open>get\<close>,
  which gives \<^verbatim>\<open>undefined\<close> for a missing key. Numbers in a configuration are finite
  (\<^verbatim>\<open>NaN\<close> and the infinities are left out). The schema only compares strings with
  ASCII literals and tests them for emptiness, so the property names and the strings of
  a configuration are written as HOL strings.
\<close>

datatype jsval =
    Undefined
  | Null
  | Boolean bool
  | Number real
  | String string
  | Array "jsval list"
  | Object "(string \<times> jsval) list"

definition get :: "(string \<times> jsval) list \<Rightarrow> string \<Rightarrow> jsval" where
  "get props key = (case map_of props key of None \<Rightarrow> Undefined | Some v \<Rightarrow> v)"

record EmbeddingsConfig =
  provider :: string
  apiKey :: "string option"
  model :: "string option"
  baseUrl :: "string option"

record SummarizerConfig =
  sum_provider :: string
  sum_apiKey :: string
  sum_model :: "string option"

record SearchConfig =
  hybridWeight :: real
  defaultLimit :: real

record MemoryConfig =
  storagePath :: string
  embeddings :: EmbeddingsConfig
  summarizer :: SummarizerConfig
  chunkSize :: real
  search :: SearchConfig

text \<open>
  The schema combinators of the validation library, as far as the configuration schema
  uses them. A parse gives the data or the list of issues found.
\<close>

type_synonym 'a parsed = "string list + 'a"

definition z_string :: "jsval \<Rightarrow> string parsed" where
  "z_string v = (case v of String s \<Rightarrow> Inr s | _ \<Rightarrow> Inl [''Expected string''])"

definition z_number :: "jsval \<Rightarrow> real parsed" where
  "z_number v = (case v of Number x \<Rightarrow> Inr x | _ \<Rightarrow> Inl [''Expected number''])"

text \<open>A check added to a schema, such as \<^verbatim>\<open>.positive()\<close>, \<^verbatim>\<open>.min(0)\<close> or \<^verbatim>\<open>.refine(...)\<close>.\<close>

definition z_check :: "('a \<Rightarrow> bool) \<Rightarrow> string \<Rightarrow> 'a parsed \<Rightarrow> 'a parsed" where
  "z_check ok message r =
     (case r of Inl issues \<Rightarrow> Inl issues | Inr d \<Rightarrow> if ok d then Inr d else Inl [message])"

definition z_enum :: "string list \<Rightarrow> jsval \<Rightarrow> string parsed" where
  "z_enum options v =
     (case v of
        String s \<Rightarrow> if s \<in> set options then Inr s else Inl [''Invalid enum value'']
      | _ \<Rightarrow> Inl [''Invalid enum value''])"

text \<open>\<^verbatim>\<open>.optional()\<close> lets \<^verbatim>\<open>undefined\<close> through.\<close>

definition z_optional :: "(jsval \<Rightarrow> 'a parsed) \<Rightarrow> jsval \<Rightarrow> 'a option parsed" where
  "z_optional schema v =
     (if v = Undefined then Inr None
      else case schema v of Inl issues \<Rightarrow> Inl issues | Inr d \<Rightarrow> Inr (Some d))"

text \<open>\<^verbatim>\<open>.default(d)\<close> parses \<open>d\<close> in the place of \<^verbatim>\<open>undefined\<close>.\<close>

definition z_default :: "(jsval \<Rightarrow> 'a parsed) \<Rightarrow> jsval \<Rightarrow> jsval \<Rightarrow> 'a parsed" where
  "z_default schema d v = (if v = Undefined then schema d else schema v)"

text \<open>The properties of an object are all parsed, and the issues of all are reported.\<close>

definition z_both :: "'a parsed \<Rightarrow> 'b parsed \<Rightarrow> ('a \<times> 'b) parsed" where
  "z_both r1 r2 =
     (case (r1, r2) of
        (Inr a, Inr b) \<Rightarrow> Inr (a, b)
      | (Inl i1, Inr b) \<Rightarrow> Inl i1
      | (Inr a, Inl i2) \<Rightarrow> Inl i2
      | (Inl i1, Inl i2) \<Rightarrow> Inl (i1 @ i2))"

text \<open>
  \<^verbatim>\<open>export const EmbeddingsConfigSchema = z.object({
    provider: z.enum(['openai', 'ollama']),
    apiKey: z.string().optional(),
    model: z.string().optional(),
    baseUrl: z.string().optional(),
  }).refine(
    (data) => data.provider !== 'openai' || data.apiKey,
    { message: 'apiKey required for OpenAI provider' }
  ).refine(
    (data) => data.provider !== 'ollama' || data.baseUrl,
    { message: 'baseUrl required for Ollama provider' }
  );\<close>
  The two refinements test the truthiness of an optional string: it is present and not
  empty.
\<close>

definition truthy :: "string option \<Rightarrow> bool" where
  "truthy v \<longleftrightarrow> (case v of None \<Rightarrow> False | Some s \<Rightarrow> s \<noteq> [])"

definition EmbeddingsConfigSchema :: "jsval \<Rightarrow> EmbeddingsConfig parsed" where
  "EmbeddingsConfigSchema v =
     (case v of
        Object props \<Rightarrow>
          z_check (\<lambda>data. provider data \<noteq> ''ollama'' \<or> truthy (baseUrl data))
            ''baseUrl required for Ollama provider''
            (z_check (\<lambda>data. provider data \<noteq> ''openai'' \<or> truthy (apiKey data))
               ''apiKey required for OpenAI provider''
               (case z_both (z_enum [''openai'', ''ollama''] (get props ''provider''))
                      (z_both (z_optional z_string (get props ''apiKey''))
                        (z_both (z_optional z_string (get props ''model''))
                              (z_optional z_string (get props ''baseUrl'')))) of
                  Inl issues \<Rightarrow> Inl issues
                | Inr (p, k, m, b) \<Rightarrow>
                    Inr \<lparr> provider = p, apiKey = k, model = m, baseUrl = b \<rparr>))
      | _ \<Rightarrow> Inl [''Expected object''])"

text \<open>
  \<^verbatim>\<open>export const SummarizerConfigSchema = z.object({
    provider: z.enum(['openai', 'anthropic']),
    apiKey: z.string(),
    model: z.string().optional(),
  });\<close>
\<close>

definition SummarizerConfigSchema :: "jsval \<Rightarrow> SummarizerConfig parsed" where
  "SummarizerConfigSchema v =
     (case v of
        Object props \<Rightarrow>
          (case z_both (z_enum [''openai'', ''anthropic''] (get props ''provider''))
                 (z_both (z_string (get props ''apiKey''))
                       (z_optional z_string (get props ''model''))) of
             Inl issues \<Rightarrow> Inl issues
           | Inr (p, k, m) \<Rightarrow> Inr \<lparr> sum_provider = p, sum_apiKey = k, sum_model = m \<rparr>)
      | _ \<Rightarrow> Inl [''Expected object''])"

text \<open>
  \<^verbatim>\<open>export const SearchConfigSchema = z.object({
    hybridWeight: z.number().min(0).max(1).default(0.7),
    defaultLimit: z.number().positive().default(10),
  }).default({});\<close>
\<close>

definition z_positive :: "jsval \<Rightarrow> real parsed" where
  "z_positive v = z_check (\<lambda>x. 0 < x) ''Number must be greater than 0'' (z_number v)"

definition SearchConfigSchema :: "jsval \<Rightarrow> SearchConfig parsed" where
  "SearchConfigSchema =
     z_default
       (\<lambda>v. case v of
          Object props \<Rightarrow>
            (case z_both
                    (z_default
                       (\<lambda>w. z_check (\<lambda>x. x \<le> 1) ''Number must be less than or equal to 1''
                              (z_check (\<lambda>x. 0 \<le> x) ''Number must be greater than or equal to 0''
                                 (z_number w)))
                       (Number (7 / 10)) (get props ''hybridWeight''))
                    (z_default z_positive (Number 10) (get props ''defaultLimit'')) of
               Inl issues \<Rightarrow> Inl issues
             | Inr (h, l) \<Rightarrow> Inr \<lparr> hybridWeight = h, defaultLimit = l \<rparr>)
        | _ \<Rightarrow> Inl [''Expected object''])
       (Object [])"

text \<open>
  \<^verbatim>\<open>export const MemoryConfigSchema = z.object({
    storagePath: z.string().default('~/.agent-memory'),
    embeddings: EmbeddingsConfigSchema,
    summarizer: SummarizerConfigSchema,
    chunkSize: z.number().positive().default(50),
    search: SearchConfigSchema,
  });\<close>
\<close>

definition MemoryConfigSchema :: "jsval \<Rightarrow> MemoryConfig parsed" where
  "MemoryConfigSchema v =
     (case v of
        Object props \<Rightarrow>
          (case z_both (z_default z_string (String ''~/.agent-memory'') (get props ''storagePath''))
                 (z_both (EmbeddingsConfigSchema (get props ''embeddings''))
                   (z_both (SummarizerConfigSchema (get props ''summarizer''))
                     (z_both (z_default z_positive (Number 50) (get props ''chunkSize''))
                           (SearchConfigSchema (get props ''search''))))) of
             Inl issues \<Rightarrow> Inl issues
           | Inr (p, e, s, c, q) \<Rightarrow>
               Inr \<lparr> storagePath = p, embeddings = e, summarizer = s, chunkSize = c,
                     search = q \<rparr>)
      | _ \<Rightarrow> Inl [''Expected object''])"

text \<open>
  \<^verbatim>\<open>export function resolvePath(path: string): string {
    if (path.startsWith('~')) {
      return path.replace('~', homedir());
    }
    return path;
  }\<close>
  The home directory is the parameter \<open>home\<close>. \<^verbatim>\<open>replace\<close> with a string pattern
  replaces the first occurrence, here the first character, and reads the patterns
  \<^verbatim>\<open>$$\<close>, \<^verbatim>\<open>$&\<close>, \<^verbatim>\<open>$`\<close> and \<^verbatim>\<open>$'\<close> in the replacement.
\<close>

fun substitution :: "string \<Rightarrow> string \<Rightarrow> string \<Rightarrow> string \<Rightarrow> string" where
  "substitution matched pre post (c # d # r) =
     (if c = CHR ''$'' \<and> d = CHR ''$'' then CHR ''$'' # substitution matched pre post r
      else if c = CHR ''$'' \<and> d = CHR ''&'' then matched @ substitution matched pre post r
      else if c = CHR ''$'' \<and> d = CHR 0x60 then pre @ substitution matched pre post r
      else if c = CHR ''$'' \<and> d = CHR 0x27 then post @ substitution matched pre post r
      else c # substitution matched pre post (d # r))"
| "substitution matched pre post r = r"

definition resolvePath :: "string \<Rightarrow> string \<Rightarrow> string" where
  "resolvePath home path =
     (if prefix ''~'' path then substitution ''~'' [] (drop 1 path) home @ drop 1 path
      else path)"

text \<open>
  \<^verbatim>\<open>export function validateConfig(config: unknown): MemoryConfig {
    const result = MemoryConfigSchema.safeParse(config);
    if (!result.success) {
      throw new ValidationError('Invalid configuration', result.error);
    }
    return {
      ...result.data,
      storagePath: resolvePath(result.data.storagePath),
    };
  }\<close>
\<close>

definition validateConfig :: "string \<Rightarrow> jsval \<Rightarrow> error + MemoryConfig" where
  "validateConfig home config =
     (case MemoryConfigSchema config of
        Inl issues \<Rightarrow> Inl (ValidationError ''Invalid configuration'' issues)
      | Inr data \<Rightarrow> Inr (data\<lparr> storagePath := resolvePath home (storagePath data) \<rparr>))"

text \<open>
  \<^verbatim>\<open>export const DEFAULT_CONFIG = {
    storagePath: '~/.agent-memory',
    chunkSize: 50,
    search: { hybridWeight: 0.7, defaultLimit: 10 },
  } as const;\<close>
  Of the default configuration, the chunk size.
\<close>

definition DEFAULT_CONFIG_chunkSize :: real where
  "DEFAULT_CONFIG_chunkSize = 50"

section \<open>Properties of binary64 rounding\<close>

subsection \<open>Powers of two\<close>

lemma pow2_pos [simp]: "0 < pow2 k"
  by (simp add: pow2_def)

lemma pow2_add: "pow2 (a + b) = pow2 a * pow2 b"
  by (simp add: pow2_def powr_add)

lemma pow2_le_iff [simp]: "pow2 a \<le> pow2 b \<longleftrightarrow> a \<le> b"
  by (simp add: pow2_def)

lemma pow2_less_iff [simp]: "pow2 a < pow2 b \<longleftrightarrow> a < b"
  by (simp add: pow2_def)

lemma pow2_nat: "pow2 (int n) = 2 ^ n"
  by (simp add: pow2_def powr_realpow)

lemma pow2_0 [simp]: "pow2 0 = 1"
  by (simp add: pow2_def)

lemma pow2_minus: "pow2 (- k) = 1 / pow2 k"
  by (simp add: pow2_def powr_minus inverse_eq_divide)

lemma pow2_diff: "pow2 (a - b) = pow2 a / pow2 b"
  using pow2_add [of a "- b"] by (simp add: pow2_minus)

lemma pow2_numeral: "pow2 (numeral k) = 2 ^ numeral k"
  using pow2_nat [of "numeral k"] by simp

lemma pow2_neg_numeral: "pow2 (- numeral k) = 1 / 2 ^ numeral k"
  by (simp add: pow2_minus pow2_numeral)

subsection \<open>The binade\<close>

lemma binade_upper:
  assumes "0 < x"
  shows "x < pow2 (binade x + 1)"
proof -
  have "x < 2 powr (of_int \<lfloor>log 2 x\<rfloor> + 1)"
    using floor_log_eq_powr_iff [of x 2 "\<lfloor>log 2 x\<rfloor>"] assms by simp
  also have "\<dots> = pow2 (\<lfloor>log 2 x\<rfloor> + 1)"
    by (simp add: pow2_def)
  also have "\<dots> \<le> pow2 (binade x + 1)"
    by (simp add: binade_def)
  finally show ?thesis .
qed

lemma binade_eq:
  assumes "pow2 e \<le> x" and "x < pow2 (e + 1)" and "- 1022 \<le> e"
  shows "binade x = e"
proof -
  have pos: "0 < x"
    using assms(1) pow2_pos [of e] by linarith
  have "\<lfloor>log 2 x\<rfloor> = e"
    using floor_log_eq_powr_iff [of x 2 e] pos assms(1,2) by (simp add: pow2_def)
  then show ?thesis
    using assms(3) by (simp add: binade_def)
qed

lemma binade_lower:
  assumes "pow2 (- 1022) \<le> x"
  shows "pow2 (binade x) \<le> x"
proof -
  have pos: "0 < x"
    using assms pow2_pos [of "- 1022"] by linarith
  have l: "2 powr of_int \<lfloor>log 2 x\<rfloor> \<le> x"
    using floor_log_eq_powr_iff [of x 2 "\<lfloor>log 2 x\<rfloor>"] pos by simp
  have "x < 2 powr (of_int \<lfloor>log 2 x\<rfloor> + 1)"
    using floor_log_eq_powr_iff [of x 2 "\<lfloor>log 2 x\<rfloor>"] pos by simp
  then have "x < pow2 (\<lfloor>log 2 x\<rfloor> + 1)"
    by (simp add: pow2_def)
  then have "pow2 (- 1022) < pow2 (\<lfloor>log 2 x\<rfloor> + 1)"
    using assms by (rule le_less_trans [rotated])
  then have "- 1022 \<le> \<lfloor>log 2 x\<rfloor>"
    by simp
  then have "binade x = \<lfloor>log 2 x\<rfloor>"
    by (simp add: binade_def)
  then show ?thesis
    using l by (simp add: pow2_def)
qed

lemma binade_subnormal:
  assumes "0 < x" and "x < pow2 (- 1022)"
  shows "binade x = - 1022"
proof -
  have "2 powr of_int \<lfloor>log 2 x\<rfloor> \<le> x"
    using floor_log_eq_powr_iff [of x 2 "\<lfloor>log 2 x\<rfloor>"] assms(1) by simp
  then have "pow2 \<lfloor>log 2 x\<rfloor> \<le> x"
    by (simp add: pow2_def)
  then have "pow2 \<lfloor>log 2 x\<rfloor> < pow2 (- 1022)"
    using assms(2) by (rule le_less_trans)
  then have "\<lfloor>log 2 x\<rfloor> < - 1022"
    by simp
  then show ?thesis
    by (simp add: binade_def)
qed

lemma binade_mono:
  assumes "0 < x" and "x \<le> y"
  shows "binade x \<le> binade y"
proof -
  have "log 2 x \<le> log 2 y"
    using assms by simp
  then have "\<lfloor>log 2 x\<rfloor> \<le> \<lfloor>log 2 y\<rfloor>"
    by (rule floor_mono)
  then show ?thesis
    by (simp add: binade_def)
qed

lemma binade_ge: "- 1022 \<le> binade x"
  by (simp add: binade_def)

lemma quantum_pos [simp]: "0 < quantum x"
  by (simp add: quantum_def)

lemma quantum_nonneg [simp]: "0 \<le> quantum x"
  by (simp add: quantum_def less_imp_le)

lemma quantum_nonzero [simp]: "quantum x \<noteq> 0"
  using quantum_pos [of x] by (simp del: quantum_pos)

lemma divide_quantum_mono: "a \<le> b \<Longrightarrow> a / quantum x \<le> b / quantum x"
  by (rule divide_right_mono) simp_all

subsection \<open>Rounding to an integer\<close>

lemma round_half_even_cases:
  "round_half_even y = \<lfloor>y\<rfloor> \<or> round_half_even y = \<lfloor>y\<rfloor> + 1"
  by (simp add: round_half_even_def Let_def)

lemma round_half_even_of_int [simp]: "round_half_even (of_int n) = n"
  by (simp add: round_half_even_def)


lemma round_half_even_mono:
  assumes "y \<le> z"
  shows "round_half_even y \<le> round_half_even z"
proof -
  have f: "\<lfloor>y\<rfloor> \<le> \<lfloor>z\<rfloor>"
    using assms by (rule floor_mono)
  show ?thesis
  proof (cases "\<lfloor>y\<rfloor> = \<lfloor>z\<rfloor>")
    case True
    then show ?thesis
      using assms by (auto simp: round_half_even_def Let_def)
  next
    case False
    then have "\<lfloor>y\<rfloor> + 1 \<le> \<lfloor>z\<rfloor>"
      using f by simp
    then show ?thesis
      using round_half_even_cases [of y] round_half_even_cases [of z] by linarith
  qed
qed

lemma pow2_1: "pow2 1 = 2"
  by (simp add: pow2_def)

subsection \<open>Rounding a positive real\<close>

lemma round_pos_fixed:
  assumes "x / quantum x = of_int n"
  shows "round_pos x = x"
proof -
  have "round_pos x = of_int n * quantum x"
    by (simp add: round_pos_def assms)
  also have "\<dots> = x / quantum x * quantum x"
    by (simp add: assms)
  also have "\<dots> = x"
    using quantum_pos [of x] by simp
  finally show ?thesis .
qed


lemma round_pos_upper:
  assumes "0 < x"
  shows "round_pos x \<le> pow2 (binade x + 1)"
proof -
  have q: "0 < quantum x" by simp
  have "x / quantum x \<le> pow2 (binade x + 1) / quantum x"
    using binade_upper [OF assms] by (intro divide_quantum_mono) simp
  also have "\<dots> = pow2 53"
    by (simp add: quantum_def pow2_diff [symmetric])
  also have "\<dots> = of_int (2 ^ 53)"
    using pow2_nat [of 53] by simp
  finally have "round_half_even (x / quantum x) \<le> round_half_even (of_int (2 ^ 53))"
    by (rule round_half_even_mono)
  then have "round_half_even (x / quantum x) \<le> 2 ^ 53"
    by (simp only: round_half_even_of_int)
  then have "real_of_int (round_half_even (x / quantum x)) \<le> pow2 53"
    using pow2_nat [of 53] by (simp add: of_int_le_iff [symmetric] del: of_int_le_iff)
  then have "round_pos x \<le> pow2 53 * quantum x"
    using q by (simp add: round_pos_def)
  also have "\<dots> = pow2 (binade x + 1)"
    by (simp add: quantum_def pow2_add [symmetric] add.commute)
  finally show ?thesis .
qed

lemma round_pos_lower:
  assumes "pow2 (binade x) \<le> x"
  shows "pow2 (binade x) \<le> round_pos x"
proof -
  have q: "0 < quantum x" by simp
  have "pow2 52 = pow2 (binade x) / quantum x"
    by (simp add: quantum_def pow2_diff [symmetric])
  also have "\<dots> \<le> x / quantum x"
    using assms by (rule divide_quantum_mono)
  finally have "of_int (2 ^ 52) \<le> x / quantum x"
    using pow2_nat [of 52] by simp
  then have "round_half_even (of_int (2 ^ 52)) \<le> round_half_even (x / quantum x)"
    by (rule round_half_even_mono)
  then have "2 ^ 52 \<le> round_half_even (x / quantum x)"
    by (simp only: round_half_even_of_int)
  then have "pow2 52 \<le> real_of_int (round_half_even (x / quantum x))"
    using pow2_nat [of 52] by (simp add: of_int_le_iff [symmetric] del: of_int_le_iff)
  then have "pow2 52 * quantum x \<le> round_pos x"
    using q by (simp add: round_pos_def)
  moreover have "pow2 52 * quantum x = pow2 (binade x)"
    by (simp add: quantum_def pow2_add [symmetric])
  ultimately show ?thesis by simp
qed

lemma round_pos_nonneg:
  assumes "0 < x"
  shows "0 \<le> round_pos x"
proof -
  have "round_half_even 0 \<le> round_half_even (x / quantum x)"
    using assms by (intro round_half_even_mono) (simp add: less_imp_le)
  then have "0 \<le> round_half_even (x / quantum x)"
    using round_half_even_of_int [of 0] by simp
  then show ?thesis
    by (simp add: round_pos_def)
qed

lemma round_pos_mono:
  assumes "0 < x" and "x \<le> y"
  shows "round_pos x \<le> round_pos y"
proof (cases "binade x = binade y")
  case True
  then have q: "quantum x = quantum y"
    by (simp add: quantum_def)
  have "x / quantum y \<le> y / quantum y"
    using assms(2) by (rule divide_quantum_mono)
  then have "round_half_even (x / quantum y) \<le> round_half_even (y / quantum y)"
    by (rule round_half_even_mono)
  then show ?thesis
    using quantum_pos [of y] by (simp add: round_pos_def q)
next
  case False
  then have lt: "binade x + 1 \<le> binade y"
    using binade_mono [OF assms] by simp
  then have "- 1022 < binade y"
    using binade_ge [of x] by linarith
  have "pow2 (binade y) \<le> y"
  proof (rule ccontr)
    assume "\<not> pow2 (binade y) \<le> y"
    then have "\<not> pow2 (- 1022) \<le> y"
      using binade_lower [of y] by blast
    then have "binade y = - 1022"
      using binade_subnormal [of y] assms by simp
    then show False
      using \<open>- 1022 < binade y\<close> by simp
  qed
  then have "pow2 (binade y) \<le> round_pos y"
    by (rule round_pos_lower)
  moreover have "round_pos x \<le> pow2 (binade x + 1)"
    using assms(1) by (rule round_pos_upper)
  moreover have "pow2 (binade x + 1) \<le> pow2 (binade y)"
    using lt by simp
  ultimately show ?thesis by linarith
qed

lemma round_real_mono:
  assumes "0 \<le> x" and "x \<le> y"
  shows "round_real x \<le> round_real y"
proof (cases "x = 0")
  case True
  then show ?thesis
    using assms round_pos_nonneg [of y] by (simp add: round_real_def)
next
  case False
  then show ?thesis
    using assms round_pos_mono [of x y] by (simp add: round_real_def)
qed

lemma round_pos_eval:
  assumes "pow2 e \<le> x" and "x < pow2 (e + 1)" and "- 1022 \<le> e"
  shows "round_pos x = of_int (round_half_even (x / pow2 (e - 52))) * pow2 (e - 52)"
  using binade_eq [OF assms] by (simp add: round_pos_def quantum_def)

lemma round64_eval:
  assumes "pow2 e \<le> x" and "x < pow2 (e + 1)" and "- 1022 \<le> e"
    and "of_int (round_half_even (x / pow2 (e - 52))) * pow2 (e - 52) = r" and "r \<le> max_double"
  shows "round64 x = Num r"
proof -
  have "0 < x"
    using assms(1) pow2_pos [of e] by linarith
  moreover have "round_pos x = r"
    using round_pos_eval [OF assms(1-3)] assms(4) by simp
  moreover have "0 \<le> r"
    using calculation round_pos_nonneg [of x] by simp
  moreover have "0 \<le> max_double"
    by (simp add: max_double_def)
  ultimately show ?thesis
    using assms(5) by (simp add: round64_def round_real_def)
qed

subsection \<open>Numbers that are doubles\<close>

lemma binade_one: "binade 1 = 0"
  using binade_eq [of 0 1] by (simp add: pow2_def)

lemma round_pos_nat:
  assumes "0 < n" and "n \<le> 2 ^ 53"
  shows "round_pos (real n) = real n"
proof -
  have one: "1 \<le> real n"
    using assms(1) by simp
  have "real n \<le> real (2 ^ 53)"
    using assms(2) by (rule iffD2 [OF of_nat_le_iff])
  then have n53: "real n \<le> pow2 53"
    by (simp add: pow2_numeral)
  have "pow2 (- 1022) \<le> pow2 0"
    by (simp del: pow2_0)
  then have "pow2 (- 1022) \<le> real n"
    using one by simp
  then have lo: "pow2 (binade (real n)) \<le> real n"
    by (rule binade_lower)
  have "binade 1 \<le> binade (real n)"
    using one by (intro binade_mono) simp_all
  then have e0: "0 \<le> binade (real n)"
    by (simp add: binade_one)
  have "pow2 (binade (real n)) \<le> pow2 53"
    using lo n53 by (rule order_trans)
  then have e53: "binade (real n) \<le> 53"
    by simp
  show ?thesis
  proof (cases "binade (real n) = 53")
    case True
    then have "pow2 53 \<le> real n"
      using lo by simp
    then have "real n = pow2 53"
      using n53 by simp
    then have "real n = 2 ^ 53"
      by (simp add: pow2_numeral)
    moreover have "quantum (real n) = 2"
      using True by (simp add: quantum_def pow2_def)
    ultimately have "real n / quantum (real n) = of_int (2 ^ 52)"
      by simp
    then show ?thesis
      by (rule round_pos_fixed)
  next
    case False
    define k where "k = nat (52 - binade (real n))"
    have k: "52 - binade (real n) = int k"
      using False e53 by (simp add: k_def)
    have "1 / quantum (real n) = pow2 (52 - binade (real n))"
      using pow2_minus [of "binade (real n) - 52"] by (simp add: quantum_def)
    also have "\<dots> = 2 ^ k"
      unfolding k by (rule pow2_nat)
    finally have "real n / quantum (real n) = real n * 2 ^ k"
      by (simp add: field_simps)
    also have "\<dots> = of_int (int n * 2 ^ k)"
      by simp
    finally show ?thesis
      by (rule round_pos_fixed)
  qed
qed

lemma round_real_nat:
  assumes "n \<le> 2 ^ 53"
  shows "round_real (real n) = real n"
  using assms round_pos_nat [of n] by (cases "n = 0") (simp_all add: round_real_def)

lemma max_double_large: "2 ^ 53 \<le> max_double"
  by (simp add: max_double_def)

lemma round64_nat:
  assumes "n \<le> 2 ^ 53"
  shows "round64 (real n) = Num (real n)"
proof -
  have "real n \<le> real (2 ^ 53)"
    using assms by (rule iffD2 [OF of_nat_le_iff])
  then have "real n \<le> max_double"
    using max_double_large by simp
  moreover have "- max_double \<le> real n"
    using max_double_large by (smt (verit) of_nat_0_le_iff zero_le_power)
  ultimately show ?thesis
    using round_real_nat [OF assms] by (simp add: round64_def)
qed

lemma round_real_one: "round_real 1 = 1"
  using round_real_nat [of 1] by simp

lemma max_double_pos: "0 < max_double"
  by (simp add: max_double_def)



section \<open>Properties of the numeric helpers\<close>

subsection \<open>Chunk count\<close>








subsection \<open>Score normalisation\<close>

lemma add64_one_cases:
  assumes "0 \<le> d"
  shows "(add64 1 d = Num (round_real (1 + d)) \<and> round_real (1 + d) \<le> max_double)
       \<or> (add64 1 d = PosInfinity \<and> max_double < round_real (1 + d))"
proof -
  have "round_real 1 \<le> round_real (1 + d)"
    using assms by (intro round_real_mono) simp_all
  then have "1 \<le> round_real (1 + d)"
    by (simp add: round_real_one)
  then have "\<not> round_real (1 + d) < - max_double"
    using max_double_pos by linarith
  then show ?thesis
    by (simp add: add64_def round64_def Let_def)
qed

lemma div64_one:
  assumes "1 \<le> s"
  shows "div64 1 s = Num (round_real (1 / s)) \<and> 0 \<le> round_real (1 / s) \<and> round_real (1 / s) \<le> 1"
proof -
  have pos: "0 < 1 / s" and le: "1 / s \<le> 1"
    using assms by simp_all
  have "round_real (1 / s) \<le> round_real 1"
    using pos le by (intro round_real_mono) simp_all
  then have u: "round_real (1 / s) \<le> 1"
    by (simp add: round_real_one)
  have "round_real 0 \<le> round_real (1 / s)"
    using pos by (intro round_real_mono) simp_all
  then have l: "0 \<le> round_real (1 / s)"
    by (simp add: round_real_def)
  have "1 \<le> max_double"
    by (simp add: max_double_def)
  then have "round_real (1 / s) \<le> max_double" "\<not> round_real (1 / s) < - max_double"
    using u l by linarith+
  then show ?thesis
    using assms u l by (simp add: div64_def round64_def Let_def)
qed




text \<open>
  Claim C5, as amended. The score as computed is decreasing in the distance, not
  strictly: for distances \<open>0 \<le> d1 < d2\<close> both scores are finite and the score of \<open>d2\<close>
  is at most the score of \<open>d1\<close>.
\<close>

theorem normalizeScore_antimono:
  assumes "0 \<le> d1" and "d1 < d2"
  shows "\<exists>s1 s2. normalizeScore_binary64 d1 = Num s1 \<and> normalizeScore_binary64 d2 = Num s2 \<and> s2 \<le> s1"
proof -
  have d2: "0 \<le> d2"
    using assms by simp
  have m: "round_real (1 + d1) \<le> round_real (1 + d2)"
    using assms by (intro round_real_mono) simp_all
  have one: "1 \<le> round_real (1 + d1)"
    using assms(1) round_real_mono [of 1 "1 + d1"] by (simp add: round_real_one)
  from add64_one_cases [OF d2] show ?thesis
  proof
    assume fin2: "add64 1 d2 = Num (round_real (1 + d2)) \<and> round_real (1 + d2) \<le> max_double"
    then have "round_real (1 + d1) \<le> max_double"
      using m by linarith
    then have fin1: "add64 1 d1 = Num (round_real (1 + d1))"
      using add64_one_cases [OF assms(1)] by auto
    have one2: "1 \<le> round_real (1 + d2)"
      using one m by linarith
    have "1 / round_real (1 + d2) \<le> 1 / round_real (1 + d1)"
      using one m by (intro divide_left_mono) simp_all
    moreover have "0 \<le> 1 / round_real (1 + d2)"
      using one2 by simp
    ultimately have "round_real (1 / round_real (1 + d2)) \<le> round_real (1 / round_real (1 + d1))"
      by (rule round_real_mono [rotated])
    then show ?thesis
      using fin1 fin2 div64_one [OF one] div64_one [OF one2]
      by (simp add: normalizeScore_binary64_def)
  next
    assume inf2: "add64 1 d2 = PosInfinity \<and> max_double < round_real (1 + d2)"
    from add64_one_cases [OF assms(1)] show ?thesis
    proof
      assume "add64 1 d1 = Num (round_real (1 + d1)) \<and> round_real (1 + d1) \<le> max_double"
      then show ?thesis
        using inf2 div64_one [OF one] by (simp add: normalizeScore_binary64_def)
    next
      assume "add64 1 d1 = PosInfinity \<and> max_double < round_real (1 + d1)"
      then show ?thesis
        using inf2 by (simp add: normalizeScore_binary64_def)
    qed
  qed
qed

theorem normalizeScore_antimono_witness:
  "(0::real) \<le> 0 \<and> (0::real) < 1 \<and>
   normalizeScore_binary64 0 = Num 1 \<and> normalizeScore_binary64 1 = Num (1 / 2) \<and>
   (1 / 2 :: real) \<le> 1"
proof -
  have a: "round64 1 = Num 1"
    using round64_nat [of 1] by simp
  have b: "round64 2 = Num 2"
    using round64_nat [of 2] by simp
  have c: "round64 (1 / 2) = Num (1 / 2)"
    by (rule round64_eval [where e = "- 1"])
      (simp_all add: pow2_neg_numeral pow2_minus pow2_1 pow2_numeral round_half_even_def Let_def
         max_double_def)
  show ?thesis
    using normalizeScore_antimono [of 0 1] a b c
    by (simp add: normalizeScore_binary64_def add64_def div64_def)
qed

text \<open>
  The claim as stated, with a strict inequality, does not hold of the score as computed.
  The distance \<open>2^-60\<close> is a double and is greater than \<open>0\<close>, but \<open>1 + 2^-60\<close> lies
  between the neighbouring doubles \<open>1\<close> and \<open>1 + 2^-52\<close> and rounds to \<open>1\<close>, so both
  distances have the score \<open>1\<close>.
\<close>

theorem normalizeScore_strict_counterexample:
  "(0::real) < 1 / 2 ^ 60 \<and>
   round64 (1 / 2 ^ 60) = Num (1 / 2 ^ 60) \<and>
   normalizeScore_binary64 0 = Num 1 \<and>
   normalizeScore_binary64 (1 / 2 ^ 60) = Num 1"
proof -
  have a: "round64 1 = Num 1"
    using round64_nat [of 1] by simp
  have b: "round64 (1 + 1 / 2 ^ 60) = Num 1"
    by (rule round64_eval [where e = 0])
      (simp_all add: pow2_neg_numeral pow2_1 round_half_even_def Let_def max_double_def)
  have c: "round64 (1 / 2 ^ 60) = Num (1 / 2 ^ 60)"
    by (rule round64_eval [where e = "- 60"])
      (simp_all add: pow2_neg_numeral round_half_even_def Let_def max_double_def)
  show ?thesis
    using a b c by (simp add: normalizeScore_binary64_def add64_def div64_def)
qed

section \<open>Properties of the string functions\<close>

lemma first_index_None_iff: "first_index pat s = None \<longleftrightarrow> \<not> sublist pat s"
  by (induction s) (auto simp: sublist_Cons_right)

lemma first_index_skip:
  "(\<forall>j<length a. \<not> prefix sep (drop j a @ s)) \<Longrightarrow>
     first_index sep (a @ s) = map_option (\<lambda>i. length a + i) (first_index sep s)"
proof (induction a)
  case Nil
  then show ?case by (simp add: option.map_ident)
next
  case (Cons c a)
  have "\<not> prefix sep ((c # a) @ s)"
    using Cons.prems by force
  moreover have "\<forall>j<length a. \<not> prefix sep (drop j a @ s)"
    using Cons.prems by force
  ultimately show ?case
    using Cons.IH by (simp add: option.map_comp comp_def)
qed

lemma first_index_here: "prefix pat s \<Longrightarrow> first_index pat s = Some 0"
  by (cases s) auto

lemma split_none: "sep \<noteq> [] \<Longrightarrow> first_index sep s = None \<Longrightarrow> split sep s = [s]"
  by (simp add: split.simps)

lemma split_some:
  "sep \<noteq> [] \<Longrightarrow> first_index sep s = Some i \<Longrightarrow>
     split sep s = take i s # split sep (drop (i + length sep) s)"
  by (subst split.simps) simp

lemma split_at_first:
  assumes "sep \<noteq> []" and "\<forall>j<length a. \<not> prefix sep (drop j a @ sep @ b)"
  shows "split sep (a @ sep @ b) = a # split sep b"
proof -
  have "first_index sep (a @ sep @ b) = Some (length a)"
    using first_index_skip [OF assms(2)] by (simp add: first_index_here)
  then show ?thesis
    using split_some [OF assms(1)] by simp
qed

lemma is_space_trim_Cons: "is_space c \<Longrightarrow> trim (c # s) = trim s"
  by (simp add: trim_def)

lemma trim_snoc:
  assumes "is_space c"
  shows "trim (s @ [c]) = trim s"
proof (cases "\<forall>x\<in>set s. is_space x")
  case True
  have e1: "dropWhile is_space (s @ [c]) = dropWhile is_space [c]"
    by (rule dropWhile_append2) (use True in auto)
  have e2: "dropWhile is_space s = []"
    using True by simp
  show ?thesis
    using assms by (simp add: trim_def e1 e2)
next
  case False
  then obtain x where "x \<in> set s" "\<not> is_space x"
    by blast
  then have "dropWhile is_space (s @ [c]) = dropWhile is_space s @ [c]"
    by (rule dropWhile_append1)
  then show ?thesis
    using assms by (simp add: trim_def)
qed

lemma trim_trimmed:
  assumes "trimmed s"
  shows "trim s = s"
proof (cases "s = []")
  case True
  then show ?thesis by (simp add: trim_def)
next
  case False
  then have h: "\<not> is_space (hd s)" and l: "\<not> is_space (last s)"
    using assms by (simp_all add: trimmed_def)
  have front: "dropWhile is_space s = s"
    using False h by (cases s) simp_all
  have rear: "dropWhile is_space (rev s) = rev s"
    using False l by (cases s rule: rev_cases) simp_all
  show ?thesis
    by (simp add: trim_def front rear)
qed

lemma element_simps2 [simp]: "element (x # xs) 1 = element xs 0"
  by simp

lemma utf16_simps:
  "utf16 [] = []"
  "utf16 (c # cs) = of_nat (of_char c) # utf16 cs"
  by (simp_all add: utf16_def)

lemma sep_overlap:
  assumes "x \<noteq> []" and "prefix footer_separator (x @ footer_separator @ b)"
  shows "prefix footer_separator x \<or> x = [LF, 0x2D, 0x2D, 0x2D]"
proof (cases "5 \<le> length x")
  case True
  obtain zs where e: "x @ footer_separator @ b = footer_separator @ zs"
    using assms(2) by (auto simp: prefix_def)
  have "take 5 (x @ footer_separator @ b) = take 5 (footer_separator @ zs)"
    by (simp only: e)
  then have "take 5 x = footer_separator"
    using True by simp
  then have "x = footer_separator @ drop 5 x"
    by (metis append_take_drop_id)
  then show ?thesis
    by (metis prefixI)
next
  case False
  moreover have "0 < length x"
    using assms(1) by simp
  ultimately have "length x = 1 \<or> length x = 2 \<or> length x = 3 \<or> length x = 4"
    by arith
  then show ?thesis
  proof (elim disjE)
    assume "length x = 1"
    then obtain a where "x = [a]"
      by (auto simp: length_Suc_conv)
    then show ?thesis using assms(2) by simp
  next
    assume "length x = 2"
    then obtain a c where "x = [a, c]"
      by (auto simp: length_Suc_conv numeral_2_eq_2)
    then show ?thesis using assms(2) by simp
  next
    assume "length x = 3"
    then obtain a c d where "x = [a, c, d]"
      by (auto simp: length_Suc_conv numeral_3_eq_3)
    then show ?thesis using assms(2) by simp
  next
    assume "length x = 4"
    then have "length x = Suc (Suc (Suc (Suc 0)))"
      by simp
    then obtain a c d e where "x = [a, c, d, e]"
      by (auto simp: length_Suc_conv)
    then show ?thesis using assms(2) by simp
  qed
qed

lemma first_index_separator:
  assumes "\<not> sublist footer_separator a" and "\<not> suffix ([LF, 0x2D, 0x2D, 0x2D]) a"
  shows "first_index footer_separator (a @ footer_separator @ b) = Some (length a)"
proof -
  have "\<not> prefix footer_separator (drop j a @ footer_separator @ b)" if "j < length a" for j
  proof
    assume p: "prefix footer_separator (drop j a @ footer_separator @ b)"
    have ne: "drop j a \<noteq> []" using that by simp
    have sfx: "suffix (drop j a) a" by (rule suffix_drop)
    from sep_overlap [OF ne p] show False
    proof
      assume "prefix footer_separator (drop j a)"
      then have "sublist footer_separator (drop j a)" by (rule prefix_imp_sublist)
      then have "sublist footer_separator a"
        using sfx by (meson sublist_order.order_trans suffix_imp_sublist)
      then show False using assms(1) by simp
    next
      assume "drop j a = [LF, 0x2D, 0x2D, 0x2D]"
      then show False using sfx assms(2) by simp
    qed
  qed
  then have "first_index footer_separator (a @ footer_separator @ b)
      = map_option (\<lambda>i. length a + i) (first_index footer_separator (footer_separator @ b))"
    using first_index_skip [of a footer_separator "footer_separator @ b"] by simp
  then show ?thesis by simp
qed

lemma split_line:
  assumes "LF \<notin> set a"
  shows "split [LF] (a @ LF # b) = a # split [LF] b"
proof -
  have "\<forall>j<length a. \<not> prefix [LF] (drop j a @ [LF] @ b)"
  proof (intro allI impI)
    fix j assume "j < length a"
    then obtain x xs where d: "drop j a = x # xs"
      by (cases "drop j a") simp_all
    then have "x \<in> set a"
      by (metis in_set_dropD list.set_intros(1))
    then show "\<not> prefix [LF] (drop j a @ [LF] @ b)"
      using assms d by auto
  qed
  then show ?thesis
    using split_at_first [of "[LF]" a b] by simp
qed

lemma split_last_line:
  assumes "LF \<notin> set a"
  shows "split [LF] a = [a]"
proof -
  have "\<not> sublist [LF] a"
    using assms by (auto simp: sublist_def)
  then show ?thesis
    by (simp add: split_none first_index_None_iff)
qed

lemma set_join: "set (join sep xs) \<subseteq> set sep \<union> \<Union> (set ` set xs)"
  by (induction sep xs rule: join.induct) auto

lemma split_tag:
  assumes "\<not> sublist (utf16 '', '') t"
  shows "split (utf16 '', '') (t @ (utf16 '', '') @ r) = t # split (utf16 '', '') r"
proof -
  have "\<forall>j<length t. \<not> prefix (utf16 '', '') (drop j t @ (utf16 '', '') @ r)"
  proof (intro allI impI notI)
    fix j assume j: "j < length t" and p: "prefix (utf16 '', '') (drop j t @ (utf16 '', '') @ r)"
    then obtain x xs where d: "drop j t = x # xs"
      by (cases "drop j t") simp_all
    have "xs \<noteq> []"
      using p d by (auto simp: utf16_simps)
    then have "prefix (utf16 '', '') (drop j t)"
      using p d by (cases xs) (auto simp: utf16_simps)
    then have "sublist (utf16 '', '') t"
      by (meson prefix_imp_sublist sublist_order.order_trans suffix_drop suffix_imp_sublist)
    then show False using assms by simp
  qed
  then show ?thesis
    using split_at_first [of "utf16 '', ''" t r] by (simp add: utf16_simps)
qed

lemma split_join_tags:
  assumes "ts \<noteq> []" and "\<forall>t\<in>set ts. \<not> sublist (utf16 '', '') t"
  shows "split (utf16 '', '') (join (utf16 '', '') ts) = ts"
  using assms
proof (induction "(utf16 '', '')" ts rule: join.induct)
  case 1
  then show ?case by simp
next
  case (2 x)
  then show ?case by (simp add: split_none first_index_None_iff utf16_simps)
next
  case (3 x y ys)
  then show ?case by (simp add: split_tag del: append.simps)
qed

section \<open>Properties of the markdown format\<close>

lemma first_index_colon:
  assumes "k \<noteq> []" and "0x3A \<notin> set k"
  shows "first_index [0x3A] (k @ 0x3A # r) = Some (length k)"
proof -
  have "\<forall>j<length k. \<not> prefix [0x3A] (drop j k @ 0x3A # r)"
  proof (intro allI impI)
    fix j assume "j < length k"
    then obtain x xs where d: "drop j k = x # xs"
      by (cases "drop j k") simp_all
    then have "x \<in> set k"
      by (metis in_set_dropD list.set_intros(1))
    then show "\<not> prefix [0x3A] (drop j k @ 0x3A # r)"
      using assms(2) d by auto
  qed
  then show ?thesis
    using first_index_skip [of k "[0x3A]" "0x3A # r"] by simp
qed

text \<open>A line with a colon after its first position sets one key.\<close>

lemma frontmatter_line_entry:
  assumes "k \<noteq> []" and "0x3A \<notin> set k"
  shows "frontmatter_line m (k @ 0x3A # r) = m(trim k \<mapsto> trim r)"
proof -
  have "nat (int (length k) + 1) = Suc (length k)"
    by simp
  then show ?thesis
    using assms first_index_colon [OF assms, of r]
    by (simp add: frontmatter_line_def indexOf_def utf16_simps Let_def)
qed

lemma trim_literals:
  "trim (utf16 ''tags'') = utf16 ''tags''" "trim (utf16 ''created'') = utf16 ''created''"
  "trim (utf16 ''updated'') = utf16 ''updated''" "trim (utf16 ''deleted'') = utf16 ''deleted''"
  by (simp_all add: trim_def is_space_def utf16_simps)

lemma trim_space_Cons: "trim (0x20 # s) = trim s"
  by (simp add: is_space_trim_Cons is_space_def)

lemma frontmatter_line_tags:
  assumes "trimmed v"
  shows "frontmatter_line m (utf16 ''tags: '' @ v) = m(utf16 ''tags'' \<mapsto> v)"
proof -
  have "utf16 ''tags: '' @ v = utf16 ''tags'' @ 0x3A # 0x20 # v"
    by (simp add: utf16_simps)
  moreover have "utf16 ''tags'' \<noteq> []" "0x3A \<notin> set (utf16 ''tags'')"
    by (simp_all add: utf16_simps)
  ultimately show ?thesis
    using assms by (simp add: frontmatter_line_entry trim_literals trim_space_Cons trim_trimmed)
qed

lemma frontmatter_line_created:
  assumes "trimmed v"
  shows "frontmatter_line m (utf16 ''created: '' @ v) = m(utf16 ''created'' \<mapsto> v)"
proof -
  have "utf16 ''created: '' @ v = utf16 ''created'' @ 0x3A # 0x20 # v"
    by (simp add: utf16_simps)
  moreover have "utf16 ''created'' \<noteq> []" "0x3A \<notin> set (utf16 ''created'')"
    by (simp_all add: utf16_simps)
  ultimately show ?thesis
    using assms by (simp add: frontmatter_line_entry trim_literals trim_space_Cons trim_trimmed)
qed

lemma frontmatter_line_updated:
  assumes "trimmed v"
  shows "frontmatter_line m (utf16 ''updated: '' @ v) = m(utf16 ''updated'' \<mapsto> v)"
proof -
  have "utf16 ''updated: '' @ v = utf16 ''updated'' @ 0x3A # 0x20 # v"
    by (simp add: utf16_simps)
  moreover have "utf16 ''updated'' \<noteq> []" "0x3A \<notin> set (utf16 ''updated'')"
    by (simp_all add: utf16_simps)
  ultimately show ?thesis
    using assms by (simp add: frontmatter_line_entry trim_literals trim_space_Cons trim_trimmed)
qed

lemma frontmatter_line_deleted:
  assumes "trimmed v"
  shows "frontmatter_line m (utf16 ''deleted: '' @ v) = m(utf16 ''deleted'' \<mapsto> v)"
proof -
  have "utf16 ''deleted: '' @ v = utf16 ''deleted'' @ 0x3A # 0x20 # v"
    by (simp add: utf16_simps)
  moreover have "utf16 ''deleted'' \<noteq> []" "0x3A \<notin> set (utf16 ''deleted'')"
    by (simp_all add: utf16_simps)
  ultimately show ?thesis
    using assms by (simp add: frontmatter_line_entry trim_literals trim_space_Cons trim_trimmed)
qed

lemma trimmed_show_bool: "trimmed (show_bool b)"
  by (simp add: trimmed_def show_bool_def is_space_def utf16_simps)

lemma LF_show_bool: "LF \<notin> set (show_bool b)"
  by (simp add: show_bool_def utf16_simps)

lemma LF_labels:
  "LF \<notin> set (utf16 ''tags: '')" "LF \<notin> set (utf16 ''created: '')"
  "LF \<notin> set (utf16 ''updated: '')" "LF \<notin> set (utf16 ''deleted: '')"
  by (simp_all add: utf16_simps)

lemma footer_keys_distinct:
  "utf16 ''tags'' \<noteq> utf16 ''created''" "utf16 ''tags'' \<noteq> utf16 ''updated''"
  "utf16 ''tags'' \<noteq> utf16 ''deleted''" "utf16 ''created'' \<noteq> utf16 ''tags''"
  "utf16 ''created'' \<noteq> utf16 ''updated''" "utf16 ''created'' \<noteq> utf16 ''deleted''"
  "utf16 ''updated'' \<noteq> utf16 ''tags''" "utf16 ''updated'' \<noteq> utf16 ''created''"
  "utf16 ''updated'' \<noteq> utf16 ''deleted''" "utf16 ''deleted'' \<noteq> utf16 ''tags''"
  "utf16 ''deleted'' \<noteq> utf16 ''created''" "utf16 ''deleted'' \<noteq> utf16 ''updated''"
  by (simp_all add: utf16_simps)

lemma parseFrontmatter_footer:
  assumes "trimmed j" "LF \<notin> set j" "trimmed a" "LF \<notin> set a" "trimmed u" "LF \<notin> set u"
  shows "parseFrontmatter (((utf16 ''tags: '') @ j) @ LF # ((utf16 ''created: '') @ a) @ LF # ((utf16 ''updated: '') @ u) @ LF # ((utf16 ''deleted: '') @ show_bool d))
       = [(utf16 ''tags'') \<mapsto> j, (utf16 ''created'') \<mapsto> a, (utf16 ''updated'') \<mapsto> u, (utf16 ''deleted'') \<mapsto> show_bool d]"
proof -
  have "split [LF] (((utf16 ''tags: '') @ j) @ LF # ((utf16 ''created: '') @ a) @ LF # ((utf16 ''updated: '') @ u) @ LF # ((utf16 ''deleted: '') @ show_bool d))
     = [(utf16 ''tags: '') @ j, (utf16 ''created: '') @ a, (utf16 ''updated: '') @ u, (utf16 ''deleted: '') @ show_bool d]"
    using assms
    by (simp add: split_line split_last_line LF_show_bool LF_labels del: append.simps append_assoc)
  then show ?thesis
    using assms
    by (simp add: parseFrontmatter_def frontmatter_line_tags frontmatter_line_created
        frontmatter_line_updated frontmatter_line_deleted trimmed_show_bool del: append.simps)
qed

lemma format_shape:
  "formatMemoryMarkdown n =
     ((utf16 ''# '') @ title n @ [LF, LF] @ content n @ [LF]) @ footer_separator @
     (((utf16 ''tags: '') @ join (utf16 '', '') (tags n)) @ LF # ((utf16 ''created: '') @ createdAt n) @ LF #
      ((utf16 ''updated: '') @ updatedAt n) @ LF # ((utf16 ''deleted: '') @ show_bool (deleted n)))"
  by (simp add: formatMemoryMarkdown_def utf16_simps)

lemma match_heading_title:
  assumes "t \<noteq> []" and "\<forall>c\<in>set t. \<not> is_line_terminator c"
  shows "match_heading ((utf16 ''# '') @ t @ LF # r) = Some (t, r)"
proof -
  have 1: "takeWhile (\<lambda>c. \<not> is_line_terminator c) (t @ LF # r) = t"
    using assms(2) by (simp add: takeWhile_tail is_line_terminator_def)
  have 2: "dropWhile (\<lambda>c. \<not> is_line_terminator c) (t @ LF # r) = LF # r"
    using assms(2) by (simp add: dropWhile_append2 is_line_terminator_def)
  show ?thesis
    using assms(1) by (simp add: match_heading_def utf16_simps 1 2)
qed

lemma first_index_separator_skip:
  assumes "LF \<notin> set a"
  shows "first_index footer_separator (a @ s) =
           map_option (\<lambda>i. length a + i) (first_index footer_separator s)"
proof (rule first_index_skip, intro allI impI)
  fix j assume "j < length a"
  then obtain x xs where d: "drop j a = x # xs"
    by (cases "drop j a") simp_all
  then have "x \<in> set a"
    by (metis in_set_dropD list.set_intros(1))
  then have "x \<noteq> LF" using assms by auto
  then show "\<not> prefix footer_separator (drop j a @ s)"
    using d by auto
qed

lemma body_no_separator:
  assumes "\<forall>c\<in>set t. \<not> is_line_terminator c"
    and "\<not> sublist footer_separator (LF # c @ [LF])"
  shows "\<not> sublist footer_separator ((utf16 ''# '') @ t @ [LF, LF] @ c @ [LF])"
proof -
  have t: "LF \<notin> set t"
    using assms(1) by (auto simp: is_line_terminator_def)
  have 1: "first_index footer_separator (LF # c @ [LF]) = None"
    using assms(2) first_index_None_iff by blast
  have "first_index footer_separator (LF # LF # c @ [LF]) =
          map_option Suc (first_index footer_separator (LF # c @ [LF]))"
    by simp
  then have 2: "first_index footer_separator (LF # LF # c @ [LF]) = None"
    unfolding 1 by simp
  have 3: "first_index footer_separator (t @ LF # LF # c @ [LF]) = None"
    unfolding first_index_separator_skip [OF t] 2 by simp
  have "first_index footer_separator ((utf16 ''# '') @ t @ [LF, LF] @ c @ [LF]) = None"
    by (simp add: 3 utf16_simps)
  then show ?thesis
    using first_index_None_iff by blast
qed

text \<open>The equations that evaluate the parser and the formatter on a given input.\<close>

lemmas eval_defs = utf16_def formatMemoryMarkdown_def parseMemoryMarkdown_def split.simps show_bool_def
  parseFrontmatter_def frontmatter_line_def match_heading_def strip_heading_def trim_def
  is_space_def is_line_terminator_def indexOf_def Let_def filter_Boolean_def trimmed_def
  sublist_Cons_right

lemma split_not_Nil: "sep \<noteq> [] \<Longrightarrow> split sep s \<noteq> []"
  by (subst split.simps) (simp split: option.splits)

lemma split_two_pieces:
  assumes "sep \<noteq> []"
  shows "sublist sep s \<longleftrightarrow> (\<exists>body fm rest. split sep s = body # fm # rest)"
proof (cases "first_index sep s")
  case None
  then show ?thesis
    using assms by (simp add: split_none first_index_None_iff [symmetric])
next
  case (Some i)
  obtain fm rest where "split sep (drop (i + length sep) s) = fm # rest"
    using split_not_Nil [OF assms, of "drop (i + length sep) s"] by (cases "split sep (drop (i + length sep) s)") auto
  then have "split sep s = take i s # fm # rest"
    using assms Some by (simp add: split_some)
  moreover have "sublist sep s"
    using Some first_index_None_iff [of sep s] by simp
  ultimately show ?thesis by blast
qed

lemma match_heading_Some_iff:
  "match_heading body = Some (t, r) \<longleftrightarrow>
     body = (utf16 ''# '') @ t @ LF # r \<and> t \<noteq> [] \<and> (\<forall>c\<in>set t. \<not> is_line_terminator c)"
proof
  assume "body = (utf16 ''# '') @ t @ LF # r \<and> t \<noteq> [] \<and> (\<forall>c\<in>set t. \<not> is_line_terminator c)"
  then show "match_heading body = Some (t, r)"
    using match_heading_title [of t r] by simp
next
  assume m: "match_heading body = Some (t, r)"
  then have p: "prefix (utf16 ''# '') body"
    by (auto simp: match_heading_def split: if_splits)
  define rest where "rest = drop 2 body"
  have body: "body = (utf16 ''# '') @ rest"
    using p by (auto simp: rest_def prefix_def utf16_simps)
  define run where "run = takeWhile (\<lambda>c. \<not> is_line_terminator c) rest"
  define after where "after = dropWhile (\<lambda>c. \<not> is_line_terminator c) rest"
  have rest: "rest = run @ after"
    by (simp add: run_def after_def)
  from m p have "(case after of [] \<Rightarrow> None | c # cs \<Rightarrow> if run \<noteq> [] \<and> c = LF then Some (run, cs) else None) = Some (t, r)"
    unfolding match_heading_def Let_def rest_def run_def after_def by simp
  then have "after = LF # r" "run = t" "t \<noteq> []"
    by (auto split: list.splits if_splits)
  moreover have "\<forall>c\<in>set run. \<not> is_line_terminator c"
    unfolding run_def by (auto dest: set_takeWhileD)
  ultimately show "body = (utf16 ''# '') @ t @ LF # r \<and> t \<noteq> [] \<and> (\<forall>c\<in>set t. \<not> is_line_terminator c)"
    using body rest by simp
qed

text \<open>The file that the header comment of the storage module shows parses as it says.\<close>

lemma documented_note_parses:
  "parseMemoryMarkdown now_created now_updated
     (utf16 ''# Title Here\<newline>\<newline>Content goes here...\<newline>\<newline>---\<newline>tags: tag1, tag2\<newline>created: 2024-02-02T11:00:00Z\<newline>updated: 2024-02-02T11:00:00Z\<newline>deleted: false'')
     (utf16 ''memory-1a2b3c4d'')
   = Inr \<lparr> memory_id = (utf16 ''memory-1a2b3c4d''), title = (utf16 ''Title Here''),
          content = (utf16 ''Content goes here...''), tags = [(utf16 ''tag1''), (utf16 ''tag2'')],
          createdAt = (utf16 ''2024-02-02T11:00:00Z''), updatedAt = (utf16 ''2024-02-02T11:00:00Z''),
          deleted = False \<rparr>"
  by (simp add: eval_defs)

text \<open>
  Claim C1, as amended. Formatting a note and parsing the result gives the note back when
  the title is one non-empty line, the content has no whitespace at either end and no
  line that is exactly \<^verbatim>\<open>---\<close>, every tag is non-empty, free of line feeds and of
  the joiner \<^verbatim>\<open>", "\<close>, the joined tags have no whitespace at either end, and the two
  timestamps are single lines without surrounding whitespace.
\<close>

theorem format_parse_round_trip:
  assumes title_ok: "title n \<noteq> []" "\<forall>c\<in>set (title n). \<not> is_line_terminator c"
    and content_ok: "trimmed (content n)" "\<not> sublist footer_separator (LF # content n @ [LF])"
    and tags_ok: "\<forall>t\<in>set (tags n). t \<noteq> [] \<and> LF \<notin> set t \<and> \<not> sublist (utf16 '', '') t"
      "trimmed (join (utf16 '', '') (tags n))"
    and created_ok: "trimmed (createdAt n)" "LF \<notin> set (createdAt n)"
    and updated_ok: "trimmed (updatedAt n)" "LF \<notin> set (updatedAt n)"
  shows "parseMemoryMarkdown now_created now_updated (formatMemoryMarkdown n) (memory_id n) = Inr n"
proof -
  define body where "body = (utf16 ''# '') @ title n @ [LF, LF] @ content n @ [LF]"
  define j where "j = join (utf16 '', '') (tags n)"
  define fm where "fm = ((utf16 ''tags: '') @ j) @ LF # ((utf16 ''created: '') @ createdAt n) @ LF #
      ((utf16 ''updated: '') @ updatedAt n) @ LF # ((utf16 ''deleted: '') @ show_bool (deleted n))"
  have fmt: "formatMemoryMarkdown n = body @ footer_separator @ fm"
    unfolding body_def fm_def j_def by (rule format_shape)
  have j_LF: "LF \<notin> set j"
    using tags_ok(1) set_join [of "utf16 '', ''" "tags n"] unfolding j_def
    by (auto simp: utf16_simps)
  have body_clean: "\<not> sublist footer_separator body"
    unfolding body_def using title_ok(2) content_ok(2) by (rule body_no_separator)
  have body_end: "\<not> suffix ([LF, 0x2D, 0x2D, 0x2D]) body"
    by (simp add: body_def suffix_def)
  have fm_clean: "first_index footer_separator fm = None"
    using j_LF created_ok(2) updated_ok(2)
    by (simp add: fm_def first_index_separator_skip show_bool_def utf16_simps)
  have "first_index footer_separator (body @ footer_separator @ fm) = Some (length body)"
    using body_clean body_end by (rule first_index_separator)
  then have "split footer_separator (body @ footer_separator @ fm) = body # split footer_separator fm"
    by (simp add: split_some)
  then have parts: "split footer_separator (formatMemoryMarkdown n) = [body, fm]"
    using fm_clean by (simp add: fmt split_none)
  have meta: "parseFrontmatter fm = [(utf16 ''tags'') \<mapsto> j, (utf16 ''created'') \<mapsto> createdAt n,
      (utf16 ''updated'') \<mapsto> updatedAt n, (utf16 ''deleted'') \<mapsto> show_bool (deleted n)]"
    unfolding fm_def using tags_ok(2) j_LF created_ok updated_ok
    unfolding j_def [symmetric] by (rule parseFrontmatter_footer)
  have heading: "match_heading body = Some (title n, LF # content n @ [LF])"
    using match_heading_title [OF title_ok] by (simp add: body_def)
  have stripped: "trim (strip_heading body) = content n"
    using content_ok(1) by (simp add: strip_heading_def heading trim_snoc is_space_def trim_trimmed)
  have tags_back: "filter_Boolean (split (utf16 '', '') j) = tags n"
  proof (cases "tags n = []")
    case True
    then show ?thesis
      by (simp add: j_def split_none filter_Boolean_def utf16_simps)
  next
    case False
    then have "split (utf16 '', '') j = tags n"
      unfolding j_def using tags_ok(1) by (simp add: split_join_tags)
    then show ?thesis
      using tags_ok(1) by (simp add: filter_Boolean_def)
  qed
  have del: "(show_bool (deleted n) = (utf16 ''true'')) = deleted n"
    by (simp add: show_bool_def utf16_simps)
  have "body \<noteq> []" "fm \<noteq> []"
    by (simp_all add: body_def fm_def utf16_simps)
  then show ?thesis
    by (simp add: parseMemoryMarkdown_def parts heading stripped meta tags_back del
        footer_keys_distinct)
qed

theorem format_parse_round_trip_witness:
  "parseMemoryMarkdown (utf16 ''2025-01-01T00:00:00Z'') (utf16 ''2025-01-01T00:00:00Z'')
     (formatMemoryMarkdown
        \<lparr> memory_id = (utf16 ''memory-1a2b3c4d''), title = (utf16 ''Preferences''),
          content = (utf16 ''User prefers dark mode''), tags = [(utf16 ''preference''), (utf16 ''ui'')],
          createdAt = (utf16 ''2024-02-02T11:00:00Z''), updatedAt = (utf16 ''2024-02-03T09:30:00Z''),
          deleted = False \<rparr>)
     (utf16 ''memory-1a2b3c4d'')
   = Inr \<lparr> memory_id = (utf16 ''memory-1a2b3c4d''), title = (utf16 ''Preferences''),
          content = (utf16 ''User prefers dark mode''), tags = [(utf16 ''preference''), (utf16 ''ui'')],
          createdAt = (utf16 ''2024-02-02T11:00:00Z''), updatedAt = (utf16 ''2024-02-03T09:30:00Z''),
          deleted = False \<rparr>"
  using format_parse_round_trip [of
      "\<lparr> memory_id = (utf16 ''memory-1a2b3c4d''), title = (utf16 ''Preferences''),
          content = (utf16 ''User prefers dark mode''), tags = [(utf16 ''preference''), (utf16 ''ui'')],
          createdAt = (utf16 ''2024-02-02T11:00:00Z''), updatedAt = (utf16 ''2024-02-03T09:30:00Z''),
          deleted = False \<rparr>" "(utf16 ''2025-01-01T00:00:00Z'')" "(utf16 ''2025-01-01T00:00:00Z'')"]
  by (simp add: utf16_def is_line_terminator_def is_space_def trimmed_def sublist_Cons_right)

text \<open>
  The claim as the specification states it, for every valid note, does not hold: the
  parser trims the content, so a note whose content starts with spaces does not come
  back unchanged.
\<close>

theorem round_trip_counterexample:
  "parseMemoryMarkdown (utf16 ''2025-01-01T00:00:00Z'') (utf16 ''2025-01-01T00:00:00Z'')
     (formatMemoryMarkdown
        \<lparr> memory_id = (utf16 ''memory-1a2b3c4d''), title = (utf16 ''Preferences''),
          content = (utf16 ''  indented first line''), tags = [(utf16 ''preference'')],
          createdAt = (utf16 ''2024-02-02T11:00:00Z''), updatedAt = (utf16 ''2024-02-03T09:30:00Z''),
          deleted = False \<rparr>)
     (utf16 ''memory-1a2b3c4d'')
   \<noteq> Inr \<lparr> memory_id = (utf16 ''memory-1a2b3c4d''), title = (utf16 ''Preferences''),
          content = (utf16 ''  indented first line''), tags = [(utf16 ''preference'')],
          createdAt = (utf16 ''2024-02-02T11:00:00Z''), updatedAt = (utf16 ''2024-02-03T09:30:00Z''),
          deleted = False \<rparr>"
  by (simp add: eval_defs)

text \<open>
  The line separator U+2028 ends the run of \<^verbatim>\<open>.+\<close> as a line feed does, so a title
  that contains one is not found, although it has no line feed and no carriage return;
  the heading then stays in the content.
\<close>

lemma line_separator_title_lost:
  "parseMemoryMarkdown (utf16 ''2025-01-01T00:00:00Z'') (utf16 ''2025-01-01T00:00:00Z'')
     (formatMemoryMarkdown
        \<lparr> memory_id = utf16 ''memory-1a2b3c4d'', title = utf16 ''Tea'' @ [0x2028] @ utf16 ''order'',
          content = utf16 ''Green'', tags = [utf16 ''tea''],
          createdAt = utf16 ''2024-02-02T11:00:00Z'', updatedAt = utf16 ''2024-02-03T09:30:00Z'',
          deleted = False \<rparr>)
     (utf16 ''memory-1a2b3c4d'')
   = Inr \<lparr> memory_id = utf16 ''memory-1a2b3c4d'', title = utf16 ''Untitled'',
          content = utf16 ''# Tea'' @ [0x2028] @ utf16 ''order'' @ [LF, LF] @ utf16 ''Green'',
          tags = [utf16 ''tea''],
          createdAt = utf16 ''2024-02-02T11:00:00Z'', updatedAt = utf16 ''2024-02-03T09:30:00Z'',
          deleted = False \<rparr>"
  by (simp add: eval_defs)

text \<open>
  Claim C7. An input that does not contain the footer separator is rejected: the parser
  fails with an error and returns no note.
\<close>

theorem parse_without_separator_fails:
  assumes "\<not> sublist footer_separator text"
  shows "parseMemoryMarkdown now_created now_updated text ident =
           Inl (Error ''Invalid memory format: missing frontmatter'')"
proof -
  have "first_index footer_separator text = None"
    using assms by (simp add: first_index_None_iff)
  then have "split footer_separator text = [text]"
    by (simp add: split_none)
  then show ?thesis
    by (simp add: parseMemoryMarkdown_def)
qed

theorem parse_without_separator_fails_witness:
  "\<not> sublist footer_separator (utf16 ''# Title\<newline>\<newline>Some content\<newline>---'') \<and>
   parseMemoryMarkdown (utf16 ''2025-01-01T00:00:00Z'') (utf16 ''2025-01-01T00:00:00Z'')
     (utf16 ''# Title\<newline>\<newline>Some content\<newline>---'') (utf16 ''memory-1a2b3c4d'')
   = Inl (Error ''Invalid memory format: missing frontmatter'')"
  using parse_without_separator_fails [of "(utf16 ''# Title\<newline>\<newline>Some content\<newline>---'')"
       "(utf16 ''2025-01-01T00:00:00Z'')" "(utf16 ''2025-01-01T00:00:00Z'')" "(utf16 ''memory-1a2b3c4d'')"]
  by (simp add: utf16_def sublist_Cons_right)

subsection \<open>The parsed footer and its \<^verbatim>\<open>key: value\<close> lines\<close>

lemma split_LF_footer_lines: "split [LF] s = footer_lines s"
proof (induction s)
  case Nil
  then show ?case by (simp add: split_none)
next
  case (Cons c cs)
  show ?case
  proof (cases "c = LF")
    case True
    then have "first_index [LF] (c # cs) = Some 0"
      by simp
    then have "split [LF] (c # cs) = [] # split [LF] cs"
      by (simp add: split_some)
    then show ?thesis
      using True Cons.IH by simp
  next
    case False
    then have f: "first_index [LF] (c # cs) = map_option Suc (first_index [LF] cs)"
      by simp
    show ?thesis
    proof (cases "first_index [LF] cs")
      case None
      then have "split [LF] (c # cs) = [c # cs]" "split [LF] cs = [cs]"
        using f by (simp_all add: split_none)
      then show ?thesis
        using False Cons.IH by simp
    next
      case (Some i)
      then have "split [LF] (c # cs) = (c # take i cs) # split [LF] (drop (i + 1) cs)"
        "split [LF] cs = take i cs # split [LF] (drop (i + 1) cs)"
        using f by (simp_all add: split_some)
      then show ?thesis
        using False Cons.IH by simp
    qed
  qed
qed

lemma frontmatter_line_entry_of:
  "frontmatter_line m line = (case entry_of line of Some (k, v) \<Rightarrow> m(k \<mapsto> v) | None \<Rightarrow> m)"
proof -
  define name where "name = takeWhile (\<lambda>c. c \<noteq> 0x3A) line"
  define rest where "rest = dropWhile (\<lambda>c. c \<noteq> 0x3A) line"
  have line: "line = name @ rest"
    by (simp add: name_def rest_def)
  have name: "0x3A \<notin> set name"
    unfolding name_def by (auto dest: set_takeWhileD)
  show ?thesis
  proof (cases rest)
    case Nil
    then have "0x3A \<notin> set line"
      using line name by simp
    then have "\<not> sublist [0x3A] line"
      by (auto simp: sublist_def)
    then have "first_index [0x3A] line = None"
      by (simp add: first_index_None_iff)
    then have "frontmatter_line m line = m"
      by (simp add: frontmatter_line_def indexOf_def utf16_simps)
    moreover have "entry_of line = None"
      using Nil by (simp add: entry_of_def rest_def)
    ultimately show ?thesis by simp
  next
    case (Cons c r)
    have "c = 0x3A"
      using Cons hd_dropWhile [of "\<lambda>c. c \<noteq> 0x3A" line] by (auto simp: rest_def)
    then have shape: "line = name @ 0x3A # r"
      using line Cons by simp
    show ?thesis
    proof (cases "name = []")
      case True
      then have "first_index [0x3A] line = Some 0"
        using shape by simp
      then have "frontmatter_line m line = m"
        by (simp add: frontmatter_line_def indexOf_def utf16_simps)
      moreover have "entry_of line = None"
        using True by (simp add: entry_of_def name_def)
      ultimately show ?thesis by simp
    next
      case False
      have "frontmatter_line m line = m(trim name \<mapsto> trim r)"
        unfolding shape using False name by (rule frontmatter_line_entry)
      moreover have "entry_of line = Some (trim name, trim r)"
        using False Cons unfolding entry_of_def name_def [symmetric] rest_def [symmetric]
        by simp
      ultimately show ?thesis by simp
    qed
  qed
qed

lemma foldl_frontmatter_line:
  "foldl frontmatter_line m ls key =
     (let es = filter (\<lambda>e. fst e = key) (List.map_filter entry_of ls)
      in if es = [] then m key else Some (snd (last es)))"
proof (induction ls rule: rev_induct)
  case Nil
  then show ?case by (simp add: map_filter_simps)
next
  case (snoc l ls)
  show ?case
  proof (cases "entry_of l")
    case None
    then show ?thesis
      using snoc.IH by (simp add: frontmatter_line_entry_of map_filter_def)
  next
    case (Some e)
    obtain k v where e: "e = (k, v)"
      by (cases e)
    show ?thesis
    proof (cases "k = key")
      case True
      then show ?thesis
        using Some e by (simp add: frontmatter_line_entry_of map_filter_def)
    next
      case False
      then show ?thesis
        using Some e snoc.IH by (simp add: frontmatter_line_entry_of map_filter_def)
    qed
  qed
qed

text \<open>The parser reads the footer as its \<^verbatim>\<open>key: value\<close> lines.\<close>

lemma parseFrontmatter_footer_value: "parseFrontmatter fm key = footer_value fm key"
  by (simp add: parseFrontmatter_def footer_value_def footer_entries_def
      foldl_frontmatter_line split_LF_footer_lines)

text \<open>The equations that evaluate the reading of a given footer.\<close>

lemmas footer_defs = footer_value_def footer_entries_def entry_of_def

text \<open>A key has no value exactly when no entry of the footer has it.\<close>

lemma footer_value_None_iff:
  "footer_value fm key = None \<longleftrightarrow> key \<notin> fst ` set (footer_entries fm)"
  by (auto simp: footer_value_def filter_empty_conv)

text \<open>
  Claim C9, as amended. The separator is present exactly when the split has a second
  piece (\<open>split_two_pieces\<close>). When the first two pieces, the body and the footer, are
  both non-empty, the parser succeeds whatever keys the footer has. The creation time
  is the value of the footer's \<^verbatim>\<open>created\<close> key, and the reading of the clock when the
  footer has no such key; likewise the update time and the \<^verbatim>\<open>updated\<close> key. The note
  is deleted exactly when the footer has a \<^verbatim>\<open>deleted\<close> key and its value is
  \<^verbatim>\<open>true\<close>. The value of a key is that of the last footer line
  \<^verbatim>\<open>key: value\<close>, without the whitespace around the key and around the value.
\<close>

theorem parse_footer_defaults:
  assumes "split footer_separator text = body # fm # rest"
    and "body \<noteq> []" and "fm \<noteq> []"
  shows "\<exists>m. parseMemoryMarkdown now_created now_updated text ident = Inr m
     \<and> createdAt m = (case footer_value fm (utf16 ''created'') of Some v \<Rightarrow> v | None \<Rightarrow> now_created)
     \<and> updatedAt m = (case footer_value fm (utf16 ''updated'') of Some v \<Rightarrow> v | None \<Rightarrow> now_updated)
     \<and> (deleted m \<longleftrightarrow> footer_value fm (utf16 ''deleted'') = Some (utf16 ''true''))"
  using assms
  by (simp add: parseMemoryMarkdown_def Let_def parseFrontmatter_footer_value [symmetric])

theorem parse_footer_defaults_witness:
  "split footer_separator (utf16 ''Remember the tea order\<newline>---\<newline>tags: tea\<newline>deleted: true'')
     = [utf16 ''Remember the tea order'', utf16 ''tags: tea\<newline>deleted: true''] \<and>
   footer_value (utf16 ''tags: tea\<newline>deleted: true'') (utf16 ''created'') = None \<and>
   footer_value (utf16 ''tags: tea\<newline>deleted: true'') (utf16 ''updated'') = None \<and>
   footer_value (utf16 ''tags: tea\<newline>deleted: true'') (utf16 ''deleted'') = Some (utf16 ''true'') \<and>
   parseMemoryMarkdown (utf16 ''2025-01-01T00:00:00Z'') (utf16 ''2025-01-01T00:00:01Z'')
     (utf16 ''Remember the tea order\<newline>---\<newline>tags: tea\<newline>deleted: true'')
     (utf16 ''memory-1a2b3c4d'')
   = Inr \<lparr> memory_id = utf16 ''memory-1a2b3c4d'', title = utf16 ''Untitled'',
          content = utf16 ''Remember the tea order'', tags = [utf16 ''tea''],
          createdAt = utf16 ''2025-01-01T00:00:00Z'', updatedAt = utf16 ''2025-01-01T00:00:01Z'',
          deleted = True \<rparr> \<and>
   split footer_separator (utf16 ''Tea\<newline>---\<newline>created: 2024-02-02T11:00:00Z\<newline>deleted: yes'')
     = [utf16 ''Tea'', utf16 ''created: 2024-02-02T11:00:00Z\<newline>deleted: yes''] \<and>
   footer_value (utf16 ''created: 2024-02-02T11:00:00Z\<newline>deleted: yes'') (utf16 ''created'')
     = Some (utf16 ''2024-02-02T11:00:00Z'') \<and>
   footer_value (utf16 ''created: 2024-02-02T11:00:00Z\<newline>deleted: yes'') (utf16 ''deleted'')
     = Some (utf16 ''yes'') \<and>
   parseMemoryMarkdown (utf16 ''2025-01-01T00:00:00Z'') (utf16 ''2025-01-01T00:00:01Z'')
     (utf16 ''Tea\<newline>---\<newline>created: 2024-02-02T11:00:00Z\<newline>deleted: yes'')
     (utf16 ''memory-1a2b3c4d'')
   = Inr \<lparr> memory_id = utf16 ''memory-1a2b3c4d'', title = utf16 ''Untitled'',
          content = utf16 ''Tea'', tags = [],
          createdAt = utf16 ''2024-02-02T11:00:00Z'', updatedAt = utf16 ''2025-01-01T00:00:01Z'',
          deleted = False \<rparr>"
  using parse_footer_defaults [of
      "utf16 ''Remember the tea order\<newline>---\<newline>tags: tea\<newline>deleted: true''"
      "utf16 ''Remember the tea order''" "utf16 ''tags: tea\<newline>deleted: true''" "[]"
      "utf16 ''2025-01-01T00:00:00Z''" "utf16 ''2025-01-01T00:00:01Z''" "utf16 ''memory-1a2b3c4d''"]
    parse_footer_defaults [of
      "utf16 ''Tea\<newline>---\<newline>created: 2024-02-02T11:00:00Z\<newline>deleted: yes''"
      "utf16 ''Tea''" "utf16 ''created: 2024-02-02T11:00:00Z\<newline>deleted: yes''" "[]"
      "utf16 ''2025-01-01T00:00:00Z''" "utf16 ''2025-01-01T00:00:01Z''" "utf16 ''memory-1a2b3c4d''"]
  by (simp add: eval_defs footer_defs)

text \<open>
  The claim as stated, for every input with the separator present, does not hold: an
  input that ends with the separator has an empty footer and is rejected.
\<close>

theorem parse_footer_present_counterexample:
  "sublist footer_separator (utf16 ''# Note\<newline>\<newline>Text\<newline>---\<newline>'') \<and>
   parseMemoryMarkdown (utf16 ''2025-01-01T00:00:00Z'') (utf16 ''2025-01-01T00:00:01Z'')
     (utf16 ''# Note\<newline>\<newline>Text\<newline>---\<newline>'') (utf16 ''memory-1a2b3c4d'')
   = Inl (Error ''Invalid memory format: missing frontmatter'')"
  by (simp add: eval_defs)

text \<open>
  Claim C10, as amended. When the body and the footer are both non-empty and the body
  does not start with a heading line (the heading expression does not match, see
  \<open>match_heading_Some_iff\<close>), the parser succeeds, the title is \<^verbatim>\<open>Untitled\<close> and the
  content is the trimmed body.
\<close>

theorem parse_untitled:
  assumes "split footer_separator text = body # fm # rest"
    and "body \<noteq> []" and "fm \<noteq> []"
    and "match_heading body = None"
  shows "\<exists>m. parseMemoryMarkdown now_created now_updated text ident = Inr m
     \<and> title m = (utf16 ''Untitled'') \<and> content m = trim body"
  using assms by (simp add: parseMemoryMarkdown_def Let_def strip_heading_def)

theorem parse_untitled_witness:
  "split footer_separator (utf16 ''Plain first line\<newline>more text\<newline>\<newline>---\<newline>tags: a, b\<newline>created: 2024-02-02T11:00:00Z'')
     = [(utf16 ''Plain first line\<newline>more text\<newline>''), (utf16 ''tags: a, b\<newline>created: 2024-02-02T11:00:00Z'')] \<and>
   match_heading (utf16 ''Plain first line\<newline>more text\<newline>'') = None \<and>
   parseMemoryMarkdown (utf16 ''2025-01-01T00:00:00Z'') (utf16 ''2025-01-01T00:00:01Z'')
     (utf16 ''Plain first line\<newline>more text\<newline>\<newline>---\<newline>tags: a, b\<newline>created: 2024-02-02T11:00:00Z'') (utf16 ''memory-1a2b3c4d'')
   = Inr \<lparr> memory_id = (utf16 ''memory-1a2b3c4d''), title = (utf16 ''Untitled''),
          content = (utf16 ''Plain first line\<newline>more text''), tags = [(utf16 ''a''), (utf16 ''b'')],
          createdAt = (utf16 ''2024-02-02T11:00:00Z''), updatedAt = (utf16 ''2025-01-01T00:00:01Z''),
          deleted = False \<rparr>"
  using parse_untitled [of "(utf16 ''Plain first line\<newline>more text\<newline>\<newline>---\<newline>tags: a, b\<newline>created: 2024-02-02T11:00:00Z'')"
      "(utf16 ''Plain first line\<newline>more text\<newline>'')" "(utf16 ''tags: a, b\<newline>created: 2024-02-02T11:00:00Z'')" "[]"
      "(utf16 ''2025-01-01T00:00:00Z'')" "(utf16 ''2025-01-01T00:00:01Z'')" "(utf16 ''memory-1a2b3c4d'')"]
  by (simp add: eval_defs)

text \<open>
  The claim as stated does not hold: a body without a heading followed by the separator
  and an empty footer is rejected.
\<close>

theorem parse_untitled_counterexample:
  "sublist footer_separator (utf16 ''Plain text\<newline>---\<newline>'') \<and>
   element (split footer_separator (utf16 ''Plain text\<newline>---\<newline>'')) 0 = Some (utf16 ''Plain text'') \<and>
   match_heading (utf16 ''Plain text'') = None \<and>
   parseMemoryMarkdown (utf16 ''2025-01-01T00:00:00Z'') (utf16 ''2025-01-01T00:00:01Z'')
     (utf16 ''Plain text\<newline>---\<newline>'') (utf16 ''memory-1a2b3c4d'')
   = Inl (Error ''Invalid memory format: missing frontmatter'')"
  by (simp add: eval_defs)

section \<open>Properties of the summarizer response parser\<close>

lemma first_match_Some:
  "first_match m s = Some g \<Longrightarrow> \<exists>t. suffix t s \<and> m t = Some g"
proof (induction s)
  case Nil
  then have "suffix [] [] \<and> m [] = Some g" by simp
  then show ?case by blast
next
  case (Cons c cs)
  show ?case
  proof (cases "m (c # cs)")
    case None
    then have "first_match m cs = Some g" using Cons.prems by simp
    then obtain t where t: "suffix t cs" "m t = Some g" using Cons.IH by blast
    from t(1) have "suffix t (c # cs)" by (rule suffix_ConsI)
    with t(2) show ?thesis by blast
  next
    case (Some a)
    then have "a = g" using Cons.prems by simp
    then have "suffix (c # cs) (c # cs) \<and> m (c # cs) = Some g" using Some by simp
    then show ?thesis by blast
  qed
qed

lemma to_upper_markers:
  "map to_upper (utf16 ''SUMMARY:'') = (utf16 ''SUMMARY:'')" "map to_upper (utf16 ''KEY FACTS:'') = (utf16 ''KEY FACTS:'')"
  by (simp_all add: to_upper_def utf16_simps)

lemma ci_prefix_sublist:
  assumes "ci_prefix pat t" and "suffix t s"
  shows "sublist (map to_upper pat) (map to_upper s)"
proof -
  have "sublist (map to_upper pat) (map to_upper t)"
    using assms(1) by (simp add: ci_prefix_def prefix_imp_sublist)
  moreover have "suffix (map to_upper t) (map to_upper s)"
    using assms(2) by (rule map_mono_suffix)
  ultimately show ?thesis
    by (meson sublist_order.order_trans suffix_imp_sublist)
qed

lemma no_summary_marker:
  assumes "\<not> sublist (utf16 ''SUMMARY:'') (map to_upper response)"
  shows "first_match summary_at response = None"
proof (rule ccontr)
  assume "first_match summary_at response \<noteq> None"
  then obtain g where "first_match summary_at response = Some g" by auto
  then obtain t where t: "suffix t response" "summary_at t = Some g"
    using first_match_Some [of summary_at response g] by blast
  then have "ci_prefix (utf16 ''SUMMARY:'') t"
    unfolding summary_at_def by (simp split: if_splits)
  then have "sublist (map to_upper (utf16 ''SUMMARY:'')) (map to_upper response)"
    using t(1) by (rule ci_prefix_sublist)
  then show False using assms by (simp only: to_upper_markers)
qed

lemma no_facts_marker:
  assumes "\<not> sublist (utf16 ''KEY FACTS:'') (map to_upper response)"
  shows "first_match facts_at response = None"
proof (rule ccontr)
  assume "first_match facts_at response \<noteq> None"
  then obtain g where "first_match facts_at response = Some g" by auto
  then obtain t where t: "suffix t response" "facts_at t = Some g"
    using first_match_Some [of facts_at response g] by blast
  then have "ci_prefix (utf16 ''KEY FACTS:'') t"
    unfolding facts_at_def by (simp split: if_splits)
  then have "sublist (map to_upper (utf16 ''KEY FACTS:'')) (map to_upper response)"
    using t(1) by (rule ci_prefix_sublist)
  then show False using assms by (simp only: to_upper_markers)
qed

lemma summary_without_marker:
  "\<not> sublist (utf16 ''SUMMARY:'') (map to_upper response) \<Longrightarrow>
     summary (parseSummarizationResponse response) = trim response"
  by (simp add: parseSummarizationResponse_def Let_def no_summary_marker)

lemma keyFacts_without_marker:
  "\<not> sublist (utf16 ''KEY FACTS:'') (map to_upper response) \<Longrightarrow>
     keyFacts (parseSummarizationResponse response) = []"
  by (simp add: parseSummarizationResponse_def Let_def no_facts_marker
      split_none filter_Boolean_def strip_bullet_def trim_def utf16_simps)

text \<open>A response in the format that the prompt asks for.\<close>

lemma prompted_response_parses:
  "parseSummarizationResponse
     (utf16 ''SUMMARY:\<newline>The user likes tea.\<newline>\<newline>KEY FACTS:\<newline>- Likes tea\<newline>- Dislikes coffee'')
   = \<lparr> summary = (utf16 ''The user likes tea.''), keyFacts = [(utf16 ''Likes tea''), (utf16 ''Dislikes coffee'')] \<rparr>"
  by code_simp

text \<open>
  Claim C6, as amended. A response without the marker \<^verbatim>\<open>KEY FACTS:\<close> (in any case)
  gives no key facts, and a response without the marker \<^verbatim>\<open>SUMMARY:\<close> gives the
  response with the whitespace at both ends removed as the summary.
\<close>

theorem absent_sections:
  "(\<not> sublist (utf16 ''KEY FACTS:'') (map to_upper response) \<longrightarrow>
      keyFacts (parseSummarizationResponse response) = []) \<and>
   (\<not> sublist (utf16 ''SUMMARY:'') (map to_upper response) \<longrightarrow>
      summary (parseSummarizationResponse response) = trim response)"
  by (simp add: summary_without_marker keyFacts_without_marker)

theorem absent_sections_witness:
  "\<not> sublist (utf16 ''KEY FACTS:'') (map to_upper (utf16 ''The user asked about tea. '')) \<and>
   \<not> sublist (utf16 ''SUMMARY:'') (map to_upper (utf16 ''The user asked about tea. '')) \<and>
   keyFacts (parseSummarizationResponse (utf16 ''The user asked about tea. '')) = [] \<and>
   summary (parseSummarizationResponse (utf16 ''The user asked about tea. '')) = (utf16 ''The user asked about tea.'')"
proof -
  have u: "map to_upper (utf16 ''The user asked about tea. '') = (utf16 ''THE USER ASKED ABOUT TEA. '')"
    by (simp add: to_upper_def utf16_simps)
  have k: "\<not> sublist (utf16 ''KEY FACTS:'') (map to_upper (utf16 ''The user asked about tea. ''))"
    unfolding u by (simp add: utf16_simps sublist_Cons_right)
  have s: "\<not> sublist (utf16 ''SUMMARY:'') (map to_upper (utf16 ''The user asked about tea. ''))"
    unfolding u by (simp add: utf16_simps sublist_Cons_right)
  have t: "trim (utf16 ''The user asked about tea. '') = (utf16 ''The user asked about tea.'')"
    by (simp add: trim_def is_space_def utf16_simps)
  show ?thesis
    using absent_sections [of "(utf16 ''The user asked about tea. '')"] k s t by simp
qed

text \<open>
  The summary is not the response verbatim: the source trims it, so the line feed that
  ends a response is gone.
\<close>

theorem summary_verbatim_counterexample:
  "\<not> sublist (utf16 ''SUMMARY:'') (map to_upper (utf16 ''The user asked about tea.\<newline>'')) \<and>
   summary (parseSummarizationResponse (utf16 ''The user asked about tea.\<newline>''))
     \<noteq> (utf16 ''The user asked about tea.\<newline>'')"
proof -
  have u: "map to_upper (utf16 ''The user asked about tea.\<newline>'') = (utf16 ''THE USER ASKED ABOUT TEA.\<newline>'')"
    by (simp add: to_upper_def utf16_simps)
  have s: "\<not> sublist (utf16 ''SUMMARY:'') (map to_upper (utf16 ''The user asked about tea.\<newline>''))"
    unfolding u by (simp add: utf16_simps sublist_Cons_right)
  have t: "trim (utf16 ''The user asked about tea.\<newline>'') = (utf16 ''The user asked about tea.'')"
    by (simp add: trim_def is_space_def utf16_simps)
  have d: "utf16 ''The user asked about tea.'' \<noteq> utf16 ''The user asked about tea.\<newline>''"
    by (simp add: utf16_simps)
  show ?thesis
    using summary_without_marker [OF s] s t d by simp
qed

section \<open>Properties of the configuration validation\<close>

lemma z_positive_Inr: "z_positive v = Inr x \<Longrightarrow> v = Number x \<and> 0 < x"
  by (auto simp: z_positive_def z_number_def z_check_def split: jsval.splits if_splits)

lemma z_positive_Inl:
  "(\<forall>x. v = Number x \<longrightarrow> x \<le> 0) \<Longrightarrow> \<exists>issues. z_positive v = Inl issues"
  by (cases v) (auto simp: z_positive_def z_number_def z_check_def)

lemma z_both_Inr: "z_both r1 r2 = Inr p \<longleftrightarrow> r1 = Inr (fst p) \<and> r2 = Inr (snd p)"
  by (cases r1; cases r2; cases p) (auto simp: z_both_def)

lemma z_both_Inl_right: "r2 = Inl i \<Longrightarrow> \<exists>issues. z_both r1 r2 = Inl issues"
  by (cases r1) (auto simp: z_both_def)

lemma MemoryConfigSchema_Inr:
  assumes "MemoryConfigSchema config = Inr data"
  shows "\<exists>props. config = Object props \<and>
           z_default z_positive (Number 50) (get props ''chunkSize'') = Inr (chunkSize data)"
proof -
  obtain props where c: "config = Object props"
    using assms by (cases config) (simp_all add: MemoryConfigSchema_def)
  obtain p e s k q where
    b: "z_both (z_default z_string (String ''~/.agent-memory'') (get props ''storagePath''))
         (z_both (EmbeddingsConfigSchema (get props ''embeddings''))
           (z_both (SummarizerConfigSchema (get props ''summarizer''))
             (z_both (z_default z_positive (Number 50) (get props ''chunkSize''))
                   (SearchConfigSchema (get props ''search''))))) = Inr (p, e, s, k, q)"
    and d: "data = \<lparr> storagePath = p, embeddings = e, summarizer = s, chunkSize = k, search = q \<rparr>"
    using assms unfolding c MemoryConfigSchema_def
    by (auto split: sum.splits)
  from b have "z_default z_positive (Number 50) (get props ''chunkSize'') = Inr k"
    by (simp add: z_both_Inr)
  then show ?thesis using c d by simp
qed

lemma MemoryConfigSchema_chunkSize_Inl:
  assumes "z_default z_positive (Number 50) (get props ''chunkSize'') = Inl i"
  shows "\<exists>issues. MemoryConfigSchema (Object props) = Inl issues"
proof (cases "MemoryConfigSchema (Object props)")
  case (Inl a)
  then show ?thesis by blast
next
  case (Inr data)
  then show ?thesis
    using MemoryConfigSchema_Inr [OF Inr] assms by simp
qed

lemmas config_defs = validateConfig_def MemoryConfigSchema_def EmbeddingsConfigSchema_def
  SummarizerConfigSchema_def SearchConfigSchema_def z_default_def z_positive_def z_number_def
  z_string_def z_check_def z_enum_def z_optional_def z_both_def get_def truthy_def resolvePath_def

lemma half_not_int: "(5 / 2 :: real) \<notin> \<int>"
proof
  assume "(5 / 2 :: real) \<in> \<int>"
  then obtain n :: int where "(5 / 2 :: real) = of_int n"
    by (auto elim: Ints_cases)
  then have "real_of_int 5 = real_of_int (2 * n)"
    by simp
  then have "(5 :: int) = 2 * n"
    by (simp only: of_int_eq_iff)
  then show False
    by presburger
qed

text \<open>
  Claim C8, as amended. The chunk size of an accepted configuration is a positive number;
  a configuration whose chunk size is given and is not a positive number is rejected
  with a validation error; an omitted chunk size becomes the default of the
  configuration, \<open>50\<close>.
\<close>

theorem validateConfig_chunkSize:
  "(validateConfig home config = Inr c \<longrightarrow> 0 < chunkSize c) \<and>
   (config = Object props \<and> get props ''chunkSize'' \<noteq> Undefined \<and>
      (\<forall>x. get props ''chunkSize'' = Number x \<longrightarrow> x \<le> 0) \<longrightarrow>
      (\<exists>issues. validateConfig home config = Inl (ValidationError ''Invalid configuration'' issues))) \<and>
   (validateConfig home config = Inr c \<and> config = Object props \<and>
      get props ''chunkSize'' = Undefined \<longrightarrow> chunkSize c = DEFAULT_CONFIG_chunkSize)"
proof (intro conjI impI)
  assume "validateConfig home config = Inr c"
  then obtain data where d: "MemoryConfigSchema config = Inr data" and c: "chunkSize c = chunkSize data"
    by (auto simp: validateConfig_def split: sum.splits)
  from MemoryConfigSchema_Inr [OF d] obtain ps where
    "z_default z_positive (Number 50) (get ps ''chunkSize'') = Inr (chunkSize data)" by blast
  then show "0 < chunkSize c"
    unfolding c by (auto simp: z_default_def dest: z_positive_Inr split: if_splits)
next
  assume a: "config = Object props \<and> get props ''chunkSize'' \<noteq> Undefined \<and>
      (\<forall>x. get props ''chunkSize'' = Number x \<longrightarrow> x \<le> 0)"
  then obtain i where "z_default z_positive (Number 50) (get props ''chunkSize'') = Inl i"
    using z_positive_Inl [of "get props ''chunkSize''"] by (auto simp: z_default_def)
  then obtain issues where "MemoryConfigSchema (Object props) = Inl issues"
    using MemoryConfigSchema_chunkSize_Inl by blast
  then show "\<exists>issues. validateConfig home config = Inl (ValidationError ''Invalid configuration'' issues)"
    using a by (simp add: validateConfig_def)
next
  assume a: "validateConfig home config = Inr c \<and> config = Object props \<and>
      get props ''chunkSize'' = Undefined"
  then obtain data where d: "MemoryConfigSchema config = Inr data" and c: "chunkSize c = chunkSize data"
    by (auto simp: validateConfig_def split: sum.splits)
  from MemoryConfigSchema_Inr [OF d] a
  have "z_default z_positive (Number 50) Undefined = Inr (chunkSize data)" by auto
  then show "chunkSize c = DEFAULT_CONFIG_chunkSize"
    unfolding c by (auto simp: z_default_def DEFAULT_CONFIG_chunkSize_def dest: z_positive_Inr)
qed

theorem validateConfig_chunkSize_witness:
  "validateConfig ''/home/agent''
     (Object [(''embeddings'', Object [(''provider'', String ''ollama''), (''baseUrl'', String ''http://localhost:11434'')]),
              (''summarizer'', Object [(''provider'', String ''openai''), (''apiKey'', String ''sk-test'')])])
   = Inr \<lparr> storagePath = ''/home/agent/.agent-memory'',
           embeddings = \<lparr> provider = ''ollama'', apiKey = None, model = None, baseUrl = Some ''http://localhost:11434'' \<rparr>,
           summarizer = \<lparr> sum_provider = ''openai'', sum_apiKey = ''sk-test'', sum_model = None \<rparr>,
           chunkSize = 50,
           search = \<lparr> hybridWeight = 7 / 10, defaultLimit = 10 \<rparr> \<rparr>
   \<and> (\<exists>issues. validateConfig ''/home/agent''
     (Object [(''embeddings'', Object [(''provider'', String ''ollama''), (''baseUrl'', String ''http://localhost:11434'')]),
              (''summarizer'', Object [(''provider'', String ''openai''), (''apiKey'', String ''sk-test'')]),
              (''chunkSize'', Number 0)])
      = Inl (ValidationError ''Invalid configuration'' issues))"
  using validateConfig_chunkSize [where home = "''/home/agent''" and config =
      "Object [(''embeddings'', Object [(''provider'', String ''ollama''), (''baseUrl'', String ''http://localhost:11434'')]),
              (''summarizer'', Object [(''provider'', String ''openai''), (''apiKey'', String ''sk-test'')])]"
      and c = "\<lparr> storagePath = ''/home/agent/.agent-memory'',
           embeddings = \<lparr> provider = ''ollama'', apiKey = None, model = None, baseUrl = Some ''http://localhost:11434'' \<rparr>,
           summarizer = \<lparr> sum_provider = ''openai'', sum_apiKey = ''sk-test'', sum_model = None \<rparr>,
           chunkSize = 50,
           search = \<lparr> hybridWeight = 7 / 10, defaultLimit = 10 \<rparr> \<rparr>"
      and props = "[(''embeddings'', Object [(''provider'', String ''ollama''), (''baseUrl'', String ''http://localhost:11434'')]),
              (''summarizer'', Object [(''provider'', String ''openai''), (''apiKey'', String ''sk-test'')])]"]
    validateConfig_chunkSize [where home = "''/home/agent''" and config =
      "Object [(''embeddings'', Object [(''provider'', String ''ollama''), (''baseUrl'', String ''http://localhost:11434'')]),
              (''summarizer'', Object [(''provider'', String ''openai''), (''apiKey'', String ''sk-test'')]),
              (''chunkSize'', Number 0)]"
      and props = "[(''embeddings'', Object [(''provider'', String ''ollama''), (''baseUrl'', String ''http://localhost:11434'')]),
              (''summarizer'', Object [(''provider'', String ''openai''), (''apiKey'', String ''sk-test'')]),
              (''chunkSize'', Number 0)]"]
  by (simp add: config_defs)

text \<open>
  The schema does not ask for an integer: the chunk size \<open>2.5\<close> is accepted.
\<close>

theorem chunkSize_integer_counterexample:
  "validateConfig ''/home/agent''
     (Object [(''embeddings'', Object [(''provider'', String ''openai''), (''apiKey'', String ''sk-test'')]),
              (''summarizer'', Object [(''provider'', String ''anthropic''), (''apiKey'', String ''sk-test'')]),
              (''chunkSize'', Number (5 / 2))])
   = Inr \<lparr> storagePath = ''/home/agent/.agent-memory'',
           embeddings = \<lparr> provider = ''openai'', apiKey = Some ''sk-test'', model = None, baseUrl = None \<rparr>,
           summarizer = \<lparr> sum_provider = ''anthropic'', sum_apiKey = ''sk-test'', sum_model = None \<rparr>,
           chunkSize = 5 / 2,
           search = \<lparr> hybridWeight = 7 / 10, defaultLimit = 10 \<rparr> \<rparr>
   \<and> (5 / 2 :: real) \<notin> \<int>"
  by (simp add: config_defs half_not_int)

end
